theory Spec2Isabelle
  imports Complex_Main
begin

section \<open>Platform strings\<close>

text \<open>
  JavaScript strings are modelled as byte strings (\<open>string\<close> is \<open>char list\<close>, one
  \<open>char\<close> per byte of the UTF-8 form). The case and white-space functions below are the
  ASCII part of \<^verbatim>\<open>toLowerCase\<close> and \<^verbatim>\<open>trim\<close>; bytes above 127 are left alone.
\<close>

definition ord :: "char \<Rightarrow> nat" where
  "ord c = of_char c"

definition isDigit :: "char \<Rightarrow> bool" where
  "isDigit c = (48 \<le> ord c \<and> ord c \<le> 57)"

definition isUpper :: "char \<Rightarrow> bool" where
  "isUpper c = (65 \<le> ord c \<and> ord c \<le> 90)"

definition isLower :: "char \<Rightarrow> bool" where
  "isLower c = (97 \<le> ord c \<and> ord c \<le> 122)"

definition isAlpha :: "char \<Rightarrow> bool" where
  "isAlpha c = (isUpper c \<or> isLower c)"

definition isAlnum :: "char \<Rightarrow> bool" where
  "isAlnum c = (isAlpha c \<or> isDigit c)"

definition toLowerChar :: "char \<Rightarrow> char" where
  "toLowerChar c = (if isUpper c then char_of (ord c + 32) else c)"

definition toLowerCase :: "string \<Rightarrow> string" where
  "toLowerCase s = map toLowerChar s"

definition isSpace :: "char \<Rightarrow> bool" where
  "isSpace c = (ord c = 32 \<or> (9 \<le> ord c \<and> ord c \<le> 13))"

definition trim :: "string \<Rightarrow> string" where
  "trim s = rev (dropWhile isSpace (rev (dropWhile isSpace s)))"

definition startsWith :: "string \<Rightarrow> string \<Rightarrow> bool" where
  "startsWith s p = (take (length p) s = p)"

definition endsWith :: "string \<Rightarrow> string \<Rightarrow> bool" where
  "endsWith s p = (length p \<le> length s \<and> drop (length s - length p) s = p)"

text \<open>\<^verbatim>\<open>s.split(c)\<close> for a one-character separator: never empty, keeps empty pieces.\<close>

fun split_on :: "(char \<Rightarrow> bool) \<Rightarrow> string \<Rightarrow> string list" where
  "split_on sep [] = [[]]"
| "split_on sep (c # cs) =
     (if sep c then [] # split_on sep cs
      else (case split_on sep cs of
              [] \<Rightarrow> [[c]]
            | p # ps \<Rightarrow> (c # p) # ps))"

fun join :: "string \<Rightarrow> string list \<Rightarrow> string" where
  "join sep [] = []"
| "join sep [p] = p"
| "join sep (p # q # ps) = p @ sep @ join sep (q # ps)"

text \<open>Decimal numerals: \<^verbatim>\<open>Number(digits)\<close> and \<^verbatim>\<open>String(n)\<close> on naturals.\<close>

definition digit_val :: "char \<Rightarrow> nat" where
  "digit_val c = ord c - 48"

definition number_of_digits :: "string \<Rightarrow> nat" where
  "number_of_digits s = foldl (\<lambda>n c. 10 * n + digit_val c) 0 s"

fun string_of_nat :: "nat \<Rightarrow> string" where
  "string_of_nat n =
     (if n < 10 then [char_of (48 + n)]
      else string_of_nat (n div 10) @ [char_of (48 + n mod 10)])"

declare string_of_nat.simps [simp del]

section \<open>Platform URL class\<close>

text \<open>
  The source builds on the platform's \<^verbatim>\<open>URL\<close> and \<^verbatim>\<open>URLSearchParams\<close> classes (the
  WHATWG URL standard). A parsed URL is the standard's URL record, with the host in its
  serialized form.

  The functions of the source take the platform's constructor as a parameter (the
  record \<open>platform\<close> below), so what is proved of them for every URL holds whatever the
  constructor answers. The worked examples need answers, and for them this section
  follows the standard's parser on URLs with the schemes http, https, ws, wss and ftp:
  credentials, a host that is a name, an IPv4 address in any of its forms or an IPv6
  literal, an optional port, a path, a query and a fragment. It reports failure, as the
  constructor does, for a string without a scheme, an empty host, a forbidden host
  character, a bad port or a bad address. Two things the platform does are not
  followed, and the examples stay clear of them: the other schemes (the model reports
  failure for them), and the IDNA mapping of host names (the model reports failure for a
  host with bytes above 127 and takes a label that starts with \<open>xn--\<close> as it is).
\<close>

record URL =
  scheme :: string
  username :: string
  password :: string
  host :: string
  port :: "nat option"
  path :: "string list"
  query :: "string option"
  fragment :: "string option"

definition default_port :: "string \<Rightarrow> nat option" where
  "default_port s =
     (if s = ''http'' \<or> s = ''ws'' then Some 80
      else if s = ''https'' \<or> s = ''wss'' then Some 443
      else if s = ''ftp'' then Some 21
      else None)"

subsection \<open>Percent encoding\<close>

definition hex_digit :: "nat \<Rightarrow> char" where
  "hex_digit k = (if k < 10 then char_of (48 + k) else char_of (55 + k))"

definition percent_encode_byte :: "char \<Rightarrow> string" where
  "percent_encode_byte c = [CHR ''%'', hex_digit (ord c div 16), hex_digit (ord c mod 16)]"

definition percent_encode :: "(char \<Rightarrow> bool) \<Rightarrow> string \<Rightarrow> string" where
  "percent_encode in_set s =
     concat (map (\<lambda>c. if in_set c then percent_encode_byte c else [c]) s)"

definition isHex :: "char \<Rightarrow> bool" where
  "isHex c = (isDigit c \<or> (65 \<le> ord c \<and> ord c \<le> 70) \<or> (97 \<le> ord c \<and> ord c \<le> 102))"

definition hex_val :: "char \<Rightarrow> nat" where
  "hex_val c = (if isDigit c then ord c - 48
                else if isUpper c then ord c - 55 else ord c - 87)"

fun percent_decode :: "string \<Rightarrow> string" where
  "percent_decode (c # h # l # cs) =
     (if c = CHR ''%'' \<and> isHex h \<and> isHex l
      then char_of (16 * hex_val h + hex_val l) # percent_decode cs
      else c # percent_decode (h # l # cs))"
| "percent_decode cs = cs"

definition c0_control_set :: "char \<Rightarrow> bool" where
  "c0_control_set c = (ord c \<le> 31 \<or> 126 < ord c)"

definition fragment_set :: "char \<Rightarrow> bool" where
  "fragment_set c = (c0_control_set c \<or> ord c \<in> {32, 34, 60, 62, 96})"

definition query_set :: "char \<Rightarrow> bool" where
  "query_set c = (c0_control_set c \<or> ord c \<in> {32, 34, 35, 60, 62})"

definition special_query_set :: "char \<Rightarrow> bool" where
  "special_query_set c = (query_set c \<or> ord c = 39)"

text \<open>The path set as Node.js applies it: it leaves \<open>^\<close> as it is.\<close>

definition path_set :: "char \<Rightarrow> bool" where
  "path_set c = (query_set c \<or> ord c \<in> {63, 96, 123, 125})"

definition userinfo_set :: "char \<Rightarrow> bool" where
  "userinfo_set c = (path_set c \<or> ord c \<in> {47, 58, 59, 61, 64, 91, 92, 93, 94, 124})"

definition urlencoded_set :: "char \<Rightarrow> bool" where
  "urlencoded_set c = (\<not> (isAlnum c \<or> ord c \<in> {42, 45, 46, 95}))"

subsection \<open>Host parsing\<close>

definition forbidden_domain_char :: "char \<Rightarrow> bool" where
  "forbidden_domain_char c =
     (ord c \<le> 32 \<or> ord c = 127 \<or>
      ord c \<in> {35, 37, 47, 58, 60, 62, 63, 64, 91, 92, 93, 94, 124})"

definition radix_digit :: "nat \<Rightarrow> char \<Rightarrow> bool" where
  "radix_digit r c =
     (if r = 16 then isHex c
      else if r = 8 then (48 \<le> ord c \<and> ord c \<le> 55)
      else isDigit c)"

definition ipv4_number :: "string \<Rightarrow> nat option" where
  "ipv4_number s =
     (if s = [] then None
      else
        let (r, ds) =
              (if 2 \<le> length s \<and> (take 2 s = ''0x'' \<or> take 2 s = ''0X'') then (16, drop 2 s)
               else if 2 \<le> length s \<and> hd s = CHR ''0'' then (8, drop 1 s)
               else (10, s))
        in if ds = [] then Some 0
           else if list_all (radix_digit r) ds
             then Some (foldl (\<lambda>n c. r * n + hex_val c) 0 ds)
           else None)"

definition ipv4_parts :: "string \<Rightarrow> string list" where
  "ipv4_parts h =
     (let parts = split_on (\<lambda>c. c = CHR ''.'') h
      in if last parts = [] \<and> 1 < length parts then butlast parts else parts)"

definition ends_in_number :: "string \<Rightarrow> bool" where
  "ends_in_number h =
     (let parts = split_on (\<lambda>c. c = CHR ''.'') h
      in if last parts = [] \<and> length parts = 1 then False
         else
           let l = last (ipv4_parts h)
           in (l \<noteq> [] \<and> list_all isDigit l) \<or> ipv4_number l \<noteq> None)"

text \<open>
  The IPv4 parser, with the address as its four octets: the last number fills the
  octets that the numbers before it leave.
\<close>

definition ipv4_parse :: "string \<Rightarrow> nat list option" where
  "ipv4_parse h =
     (let parts = ipv4_parts h; nums = map ipv4_number parts
      in if 4 < length parts \<or> None \<in> set nums then None
         else
           let ns = map the nums; n = length ns
           in if list_ex (\<lambda>k. 255 < k) (butlast ns) then None
              else if 256 ^ (5 - n) \<le> last ns then None
              else Some (butlast ns @
                         map (\<lambda>j. last ns div 256 ^ (4 - n - j) mod 256) [0..<5 - n]))"

definition ipv4_serialize :: "nat list \<Rightarrow> string" where
  "ipv4_serialize octets = join ''.'' (map string_of_nat octets)"

text \<open>
  The IPv6 parser. The dotted decimal tail of an address: four numbers up to 255,
  none with a leading zero.
\<close>

definition ipv4_in_ipv6 :: "string \<Rightarrow> nat list option" where
  "ipv4_in_ipv6 t =
     (let parts = split_on (\<lambda>c. c = CHR ''.'') t
      in if length parts = 4 \<and>
            list_all (\<lambda>p. p \<noteq> [] \<and> list_all isDigit p \<and> (length p = 1 \<or> hd p \<noteq> CHR ''0'') \<and>
                          number_of_digits p \<le> 255) parts
         then Some (map number_of_digits parts) else None)"

definition hex_number :: "string \<Rightarrow> nat" where
  "hex_number s = foldl (\<lambda>n c. 16 * n + hex_val c) 0 s"

text \<open>
  The loop of the parser, one character at a time: the pieces read so far, the index
  of the compression if one was seen, the hexadecimal digits of the piece being read
  (\<open>None\<close> between pieces), and whether the last character was the colon that ends a
  piece, after which the text must go on.
\<close>

fun ipv6_pieces ::
  "nat list \<Rightarrow> nat option \<Rightarrow> string option \<Rightarrow> bool \<Rightarrow> string \<Rightarrow> (nat list \<times> nat option) option" where
  "ipv6_pieces ps compress buf after_colon [] =
     (case buf of
        None \<Rightarrow> if after_colon then None else Some (ps, compress)
      | Some b \<Rightarrow> Some (ps @ [hex_number b], compress))"
| "ipv6_pieces ps compress buf after_colon (c # cs) =
     (case buf of
        None \<Rightarrow>
          if length ps = 8 then None
          else if c = CHR '':'' then
            (if compress \<noteq> None then None
             else ipv6_pieces (ps @ [0]) (Some (length ps + 1)) None False cs)
          else if isHex c then ipv6_pieces ps compress (Some [c]) False cs
          else None
      | Some b \<Rightarrow>
          if isHex c \<and> length b < 4 then ipv6_pieces ps compress (Some (b @ [c])) False cs
          else if c = CHR ''.'' then
            (if 6 < length ps then None
             else
               (case ipv4_in_ipv6 (b @ c # cs) of
                  None \<Rightarrow> None
                | Some os \<Rightarrow>
                    Some (ps @ [256 * (os ! 0) + os ! 1, 256 * (os ! 2) + os ! 3], compress)))
          else if c = CHR '':'' then ipv6_pieces (ps @ [hex_number b]) compress None True cs
          else None)"

definition ipv6_parse :: "string \<Rightarrow> nat list option" where
  "ipv6_parse s =
     (case (if s \<noteq> [] \<and> hd s = CHR '':''
            then (if take 2 s = ''::'' then ipv6_pieces [0] (Some 1) None False (drop 2 s)
                  else None)
            else ipv6_pieces [] None None False s) of
        None \<Rightarrow> None
      | Some (ps, None) \<Rightarrow> if length ps = 8 then Some ps else None
      | Some (ps, Some k) \<Rightarrow> Some (take k ps @ replicate (8 - length ps) 0 @ drop k ps))"

text \<open>
  The IPv6 serializer: lower-case hexadecimal pieces, with the first longest run of
  two or more zero pieces written as \<open>::\<close>.
\<close>

fun hex_string :: "nat \<Rightarrow> string" where
  "hex_string n =
     (if n < 16 then [if n < 10 then char_of (48 + n) else char_of (87 + n)]
      else hex_string (n div 16) @
           [if n mod 16 < 10 then char_of (48 + n mod 16) else char_of (87 + n mod 16)])"

declare hex_string.simps [simp del]

definition zero_runs :: "nat list \<Rightarrow> nat list" where
  "zero_runs ps = map (\<lambda>i. length (takeWhile (\<lambda>p. p = 0) (drop i ps))) [0..<length ps]"

definition ipv6_serialize :: "nat list \<Rightarrow> string" where
  "ipv6_serialize ps =
     (let rs = zero_runs ps; m = foldl max 0 rs; i = length (takeWhile (\<lambda>r. r \<noteq> m) rs)
      in if m < 2 then join '':'' (map hex_string ps)
         else join '':'' (map hex_string (take i ps)) @ ''::'' @
              join '':'' (map hex_string (drop (i + m) ps)))"

text \<open>
  The host parser for the schemes above. On a name made of ASCII characters the
  standard's domain-to-ASCII step lowers the case.
\<close>

definition host_parse :: "string \<Rightarrow> string option" where
  "host_parse h =
     (if h \<noteq> [] \<and> hd h = CHR ''['' then
        (if last h \<noteq> CHR '']'' then None
         else map_option (\<lambda>a. ''['' @ ipv6_serialize a @ '']'') (ipv6_parse (butlast (tl h))))
      else
        let d = toLowerCase (percent_decode h)
        in if d = [] \<or> list_ex (\<lambda>c. 128 \<le> ord c) d \<or> list_ex forbidden_domain_char d then None
           else if ends_in_number d then map_option ipv4_serialize (ipv4_parse d)
           else Some d)"

subsection \<open>Path, query and fragment parsing\<close>

definition is_slash :: "char \<Rightarrow> bool" where
  "is_slash c = (ord c = 47 \<or> ord c = 92)"

definition single_dot :: "string \<Rightarrow> bool" where
  "single_dot seg = (seg = ''.'' \<or> toLowerCase seg = ''%2e'')"

definition double_dot :: "string \<Rightarrow> bool" where
  "double_dot seg =
     (seg = ''..'' \<or> toLowerCase seg = ''.%2e'' \<or> toLowerCase seg = ''%2e.'' \<or>
      toLowerCase seg = ''%2e%2e'')"

text \<open>The path state: the segments pushed so far, then the segments still to read.\<close>

fun path_state :: "string list \<Rightarrow> string list \<Rightarrow> string list" where
  "path_state acc [] = acc"
| "path_state acc (seg # rest) =
     (if double_dot seg
        then path_state (if rest = [] then butlast acc @ [[]] else butlast acc) rest
      else if single_dot seg
        then path_state (if rest = [] then acc @ [[]] else acc) rest
      else path_state (acc @ [percent_encode path_set seg]) rest)"

definition path_start :: "string \<Rightarrow> string list" where
  "path_start p =
     path_state [] (split_on is_slash (if p \<noteq> [] \<and> is_slash (hd p) then tl p else p))"

definition remove_tab_newline :: "string \<Rightarrow> string" where
  "remove_tab_newline s = filter (\<lambda>c. ord c \<notin> {9, 10, 13}) s"

definition preprocess :: "string \<Rightarrow> string" where
  "preprocess s =
     remove_tab_newline
       (rev (dropWhile (\<lambda>c. ord c \<le> 32) (rev (dropWhile (\<lambda>c. ord c \<le> 32) s))))"

definition isSchemeChar :: "char \<Rightarrow> bool" where
  "isSchemeChar c = (isAlnum c \<or> ord c \<in> {43, 45, 46})"

definition split_scheme :: "string \<Rightarrow> (string \<times> string) option" where
  "split_scheme s =
     (case s of
        [] \<Rightarrow> None
      | c # cs \<Rightarrow>
          if \<not> isAlpha c then None
          else (case dropWhile isSchemeChar s of
                  [] \<Rightarrow> None
                | d # ds \<Rightarrow>
                    if d = CHR '':'' then Some (toLowerCase (takeWhile isSchemeChar s), ds)
                    else None))"

text \<open>The text after the authority: the path text, the raw query and the raw fragment.\<close>

definition split_tail :: "string \<Rightarrow> string \<times> string option \<times> string option" where
  "split_tail r =
     (let p = takeWhile (\<lambda>c. c \<noteq> CHR ''?'' \<and> c \<noteq> CHR ''#'') r;
          r1 = dropWhile (\<lambda>c. c \<noteq> CHR ''?'' \<and> c \<noteq> CHR ''#'') r;
          q = (if r1 \<noteq> [] \<and> hd r1 = CHR ''?''
               then Some (takeWhile (\<lambda>c. c \<noteq> CHR ''#'') (tl r1)) else None);
          r2 = dropWhile (\<lambda>c. c \<noteq> CHR ''#'') r1;
          f = (if r2 \<noteq> [] then Some (tl r2) else None)
      in (p, q, f))"

definition parse_port :: "string \<Rightarrow> string \<Rightarrow> nat option option" where
  "parse_port sch ds =
     (if \<not> list_all isDigit ds then None
      else if ds = [] then Some None
      else
        let n = number_of_digits ds
        in if 65535 < n then None
           else Some (if default_port sch = Some n then None else Some n))"

definition is_delim :: "char \<Rightarrow> bool" where
  "is_delim c = (is_slash c \<or> ord c = 63 \<or> ord c = 35)"

text \<open>
  The length of the host in the text of a host and a port: up to the first colon that
  is not between square brackets.
\<close>

fun host_end :: "bool \<Rightarrow> string \<Rightarrow> nat" where
  "host_end inside [] = 0"
| "host_end inside (c # cs) =
     (if c = CHR '':'' \<and> \<not> inside then 0
      else Suc (host_end (if c = CHR ''['' then True
                          else if c = CHR '']'' then False else inside) cs))"

text \<open>
  The authority: the credentials are what comes before the last \<open>@\<close>, the user name
  up to their first colon and the password after it.
\<close>

definition parse_authority :: "string \<Rightarrow> string \<Rightarrow> URL option" where
  "parse_authority sch s =
     (let auth = takeWhile (\<lambda>c. \<not> is_delim c) s;
          rest = dropWhile (\<lambda>c. \<not> is_delim c) s;
          parts = split_on (\<lambda>c. c = CHR ''@'') auth;
          cred = join ''@'' (butlast parts);
          h = take (host_end False (last parts)) (last parts);
          pt = drop (host_end False (last parts)) (last parts)
      in (case host_parse h of
            None \<Rightarrow> None
          | Some hst \<Rightarrow>
              (case parse_port sch (drop 1 pt) of
                 None \<Rightarrow> None
               | Some prt \<Rightarrow>
                   (case split_tail rest of
                      (p, q, f) \<Rightarrow>
                        Some \<lparr>scheme = sch,
                              username = percent_encode userinfo_set
                                           (takeWhile (\<lambda>c. c \<noteq> CHR '':'') cred),
                              password = percent_encode userinfo_set
                                           (drop 1 (dropWhile (\<lambda>c. c \<noteq> CHR '':'') cred)),
                              host = hst, port = prt, path = path_start p,
                              query = map_option (percent_encode special_query_set) q,
                              fragment = map_option (percent_encode fragment_set) f\<rparr>))))"

text \<open>\<^verbatim>\<open>new URL(input)\<close>: \<open>None\<close> is the constructor's TypeError.\<close>

definition parseURL :: "string \<Rightarrow> URL option" where
  "parseURL input =
     (case split_scheme (preprocess input) of
        None \<Rightarrow> None
      | Some (sch, rest) \<Rightarrow>
          if default_port sch = None then None
          else parse_authority sch (dropWhile is_slash rest))"

text \<open>The relative state, for a base with one of the modelled schemes.\<close>

definition parse_relative :: "URL \<Rightarrow> string \<Rightarrow> URL option" where
  "parse_relative B r =
     (if r \<noteq> [] \<and> is_slash (hd r) then
        (if tl r \<noteq> [] \<and> is_slash (hd (tl r))
         then parse_authority (scheme B) (dropWhile is_slash r)
         else (case split_tail r of
                 (p, q, f) \<Rightarrow>
                   Some (B\<lparr>path := path_start p,
                           query := map_option (percent_encode special_query_set) q,
                           fragment := map_option (percent_encode fragment_set) f\<rparr>)))
      else
        (case split_tail r of
           (p, q, f) \<Rightarrow>
             Some (B\<lparr>path := (if p = [] then path B
                               else path_state (butlast (path B)) (split_on is_slash p)),
                     query := (if p = [] \<and> q = None then query B
                               else map_option (percent_encode special_query_set) q),
                     fragment := map_option (percent_encode fragment_set) f\<rparr>)))"

text \<open>\<^verbatim>\<open>new URL(input, base)\<close>.\<close>

definition parseURL_base :: "string \<Rightarrow> string \<Rightarrow> URL option" where
  "parseURL_base input base =
     (case parseURL base of
        None \<Rightarrow> None
      | Some B \<Rightarrow>
          (case split_scheme (preprocess input) of
             None \<Rightarrow> parse_relative B (preprocess input)
           | Some (sch, rest) \<Rightarrow>
               if default_port sch = None then None
               else if sch = scheme B \<and> take 2 rest \<noteq> ''//'' then parse_relative B rest
               else parse_authority sch (dropWhile is_slash rest)))"

subsection \<open>Getters, setters and the serializer\<close>

text \<open>
  A setter that fails leaves the URL as it was. The protocol setter changes the scheme
  to another of the schemes above; the platform also accepts \<open>file\<close> there.
\<close>

definition get_protocol :: "URL \<Rightarrow> string" where
  "get_protocol U = scheme U @ '':''"

definition get_hostname :: "URL \<Rightarrow> string" where
  "get_hostname U = host U"

definition get_port :: "URL \<Rightarrow> string" where
  "get_port U = (case port U of None \<Rightarrow> [] | Some n \<Rightarrow> string_of_nat n)"

definition get_pathname :: "URL \<Rightarrow> string" where
  "get_pathname U = concat (map (\<lambda>seg. CHR ''/'' # seg) (path U))"

definition get_search :: "URL \<Rightarrow> string" where
  "get_search U = (case query U of None \<Rightarrow> [] | Some q \<Rightarrow> if q = [] then [] else CHR ''?'' # q)"

definition get_hash :: "URL \<Rightarrow> string" where
  "get_hash U = (case fragment U of None \<Rightarrow> [] | Some f \<Rightarrow> if f = [] then [] else CHR ''#'' # f)"

definition toString :: "URL \<Rightarrow> string" where
  "toString U =
     scheme U @ ''://'' @
     (if username U = [] \<and> password U = [] then []
      else username U @ (if password U = [] then [] else CHR '':'' # password U) @ ''@'') @
     host U @
     (case port U of None \<Rightarrow> [] | Some n \<Rightarrow> CHR '':'' # string_of_nat n) @
     get_pathname U @
     (case query U of None \<Rightarrow> [] | Some q \<Rightarrow> CHR ''?'' # q) @
     (case fragment U of None \<Rightarrow> [] | Some f \<Rightarrow> CHR ''#'' # f)"

definition set_hostname :: "URL \<Rightarrow> string \<Rightarrow> URL" where
  "set_hostname U v =
     (let h = takeWhile (\<lambda>c. \<not> is_delim c) (remove_tab_newline v)
      in if host_end False h < length h then U
         else (case host_parse h of None \<Rightarrow> U | Some x \<Rightarrow> U\<lparr>host := x\<rparr>))"

definition set_protocol :: "URL \<Rightarrow> string \<Rightarrow> URL" where
  "set_protocol U v =
     (case split_scheme (remove_tab_newline v @ '':'') of
        None \<Rightarrow> U
      | Some (s, rest) \<Rightarrow>
          if default_port s = None then U
          else U\<lparr>scheme := s, port := (if port U = default_port s then None else port U)\<rparr>)"

definition set_pathname :: "URL \<Rightarrow> string \<Rightarrow> URL" where
  "set_pathname U v = U\<lparr>path := path_start (remove_tab_newline v)\<rparr>"

definition set_port :: "URL \<Rightarrow> string \<Rightarrow> URL" where
  "set_port U v =
     (if v = [] then U\<lparr>port := None\<rparr>
      else
        let ds = takeWhile isDigit (remove_tab_newline v)
        in if ds = [] \<or> 65535 < number_of_digits ds then U
           else U\<lparr>port := (if default_port (scheme U) = Some (number_of_digits ds) then None
                            else Some (number_of_digits ds))\<rparr>)"

definition set_search :: "URL \<Rightarrow> string \<Rightarrow> URL" where
  "set_search U v =
     (if v = [] then U\<lparr>query := None\<rparr>
      else U\<lparr>query := Some (percent_encode special_query_set
                 (remove_tab_newline (if hd v = CHR ''?'' then tl v else v)))\<rparr>)"

definition set_hash :: "URL \<Rightarrow> string \<Rightarrow> URL" where
  "set_hash U v =
     (if v = [] then U\<lparr>fragment := None\<rparr>
      else U\<lparr>fragment := Some (percent_encode fragment_set
                 (remove_tab_newline (if hd v = CHR ''#'' then tl v else v)))\<rparr>)"

subsection \<open>URLSearchParams, localeCompare and Array.sort\<close>

text \<open>
  The UTF-8 decoder of the platform, on the bytes of a string: a well-formed sequence
  is kept, and each ill-formed part becomes the replacement character U+FFFD, here
  its three bytes. \<open>pend\<close> holds the bytes of the sequence being read, \<open>needed\<close> the
  number of bytes it still wants, \<open>lo\<close> and \<open>hi\<close> the range of the next one.
\<close>

definition replacement :: string where
  "replacement = [char_of (239 :: nat), char_of (191 :: nat), char_of (189 :: nat)]"

fun utf8_decode :: "string \<Rightarrow> nat \<Rightarrow> nat \<Rightarrow> nat \<Rightarrow> string \<Rightarrow> string" where
  "utf8_decode pend needed lo hi [] = (if needed = 0 then [] else replacement)"
| "utf8_decode pend needed lo hi (c # cs) =
     (if needed \<noteq> 0 \<and> lo \<le> ord c \<and> ord c \<le> hi then
        (if needed = 1 then pend @ c # utf8_decode [] 0 128 191 cs
         else utf8_decode (pend @ [c]) (needed - 1) 128 191 cs)
      else
        (if needed \<noteq> 0 then replacement else []) @
        (if ord c < 128 then c # utf8_decode [] 0 128 191 cs
         else if 194 \<le> ord c \<and> ord c \<le> 223 then utf8_decode [c] 1 128 191 cs
         else if 224 \<le> ord c \<and> ord c \<le> 239
           then utf8_decode [c] 2 (if ord c = 224 then 160 else 128)
                  (if ord c = 237 then 159 else 191) cs
         else if 240 \<le> ord c \<and> ord c \<le> 244
           then utf8_decode [c] 3 (if ord c = 240 then 144 else 128)
                  (if ord c = 244 then 143 else 191) cs
         else replacement @ utf8_decode [] 0 128 191 cs))"

definition urldecode :: "string \<Rightarrow> string" where
  "urldecode s =
     utf8_decode [] 0 128 191
       (percent_decode (map (\<lambda>c. if c = CHR ''+'' then CHR '' '' else c) s))"

definition parse_pair :: "string \<Rightarrow> string \<times> string" where
  "parse_pair s =
     (urldecode (takeWhile (\<lambda>c. c \<noteq> CHR ''='') s),
      urldecode (drop 1 (dropWhile (\<lambda>c. c \<noteq> CHR ''='') s)))"

text \<open>\<^verbatim>\<open>Array.from(new URLSearchParams(init).entries())\<close>.\<close>

definition searchParams_entries :: "string \<Rightarrow> (string \<times> string) list" where
  "searchParams_entries init =
     map parse_pair
       (filter (\<lambda>s. s \<noteq> [])
          (split_on (\<lambda>c. c = CHR ''&'')
             (if init \<noteq> [] \<and> hd init = CHR ''?'' then tl init else init)))"

definition urlencode :: "string \<Rightarrow> string" where
  "urlencode s =
     concat (map (\<lambda>c. if c = CHR '' '' then ''+''
                       else if urlencoded_set c then percent_encode_byte c else [c]) s)"

text \<open>\<^verbatim>\<open>new URLSearchParams(entries).toString()\<close>.\<close>

definition searchParams_toString :: "(string \<times> string) list \<Rightarrow> string" where
  "searchParams_toString ps = join ''&'' (map (\<lambda>(k, v). urlencode k @ ''='' @ urlencode v) ps)"

text \<open>
  \<^verbatim>\<open>a.localeCompare(b)\<close> under the root collation, which the English locales use, on
  ASCII strings. White space comes first, then punctuation and symbols in the order of
  the collation table (\<open>punctuation_order\<close> lists their codes: the underscore, the
  hyphen, the comma and so on, the dollar sign last), then the digits, then the letters in alphabetical order whatever their case; between
  strings equal so far, the lower-case letter comes first at the first difference. The
  other control characters are ignored. Bytes above 127 stand for characters whose
  place depends on the collation table; the model puts them after the letters.
\<close>

definition ignorable :: "char \<Rightarrow> bool" where
  "ignorable c = (ord c < 9 \<or> (13 < ord c \<and> ord c < 32) \<or> ord c = 127)"

definition punctuation_order :: "nat list" where
  "punctuation_order =
     [9, 10, 11, 12, 13, 32,
      95, 45, 44, 59, 58, 33, 63, 46, 39, 34, 40, 41, 91, 93, 123, 125, 64, 42, 47, 92, 38, 35,
      37, 96, 94, 43, 60, 61, 62, 124, 126, 36]"

fun compare_by :: "(char \<Rightarrow> nat) \<Rightarrow> string \<Rightarrow> string \<Rightarrow> int" where
  "compare_by k [] [] = 0"
| "compare_by k [] (y # ys) = - 1"
| "compare_by k (x # xs) [] = 1"
| "compare_by k (x # xs) (y # ys) =
     (if k x < k y then - 1 else if k y < k x then 1 else compare_by k xs ys)"

definition primary_weight :: "char \<Rightarrow> nat" where
  "primary_weight c =
     (if isDigit c then 100 + ord c
      else if isAlpha c then 200 + ord (toLowerChar c)
      else if 128 \<le> ord c then 400 + ord c
      else length (takeWhile (\<lambda>k. k \<noteq> ord c) punctuation_order))"

definition tertiary_weight :: "char \<Rightarrow> nat" where
  "tertiary_weight c = (if isUpper c then 1 else 0)"

definition localeCompare :: "string \<Rightarrow> string \<Rightarrow> int" where
  "localeCompare a b =
     (let x = filter (\<lambda>c. \<not> ignorable c) a; y = filter (\<lambda>c. \<not> ignorable c) b
      in if compare_by primary_weight x y \<noteq> 0 then compare_by primary_weight x y
         else compare_by tertiary_weight x y)"

text \<open>\<^verbatim>\<open>Array.prototype.sort(cmp)\<close> is stable: an element goes after its equals.\<close>

fun insert_sorted :: "('a \<Rightarrow> 'a \<Rightarrow> int) \<Rightarrow> 'a \<Rightarrow> 'a list \<Rightarrow> 'a list" where
  "insert_sorted cmp x [] = [x]"
| "insert_sorted cmp x (y # ys) =
     (if cmp x y < 0 then x # y # ys else y # insert_sorted cmp x ys)"

definition sort_with :: "('a \<Rightarrow> 'a \<Rightarrow> int) \<Rightarrow> 'a list \<Rightarrow> 'a list" where
  "sort_with cmp xs = foldl (\<lambda>acc x. insert_sorted cmp x acc) [] xs"

section \<open>normalizer.ts\<close>

text \<open>
  The functions of the source that call \<^verbatim>\<open>new URL(input)\<close> or \<^verbatim>\<open>new URL(input, base)\<close>
  take the constructor as their first argument; \<open>None\<close> is its TypeError. The worked
  examples pass \<open>parseURL\<close> and \<open>parseURL_base\<close>.
\<close>

type_synonym url_constructor = "string \<Rightarrow> URL option"

type_synonym url_constructor_base = "string \<Rightarrow> string \<Rightarrow> URL option"

datatype error = Error string

definition normalizeUrl :: "url_constructor \<Rightarrow> string \<Rightarrow> error + string" where
  "normalizeUrl new_url url =
     (case new_url url of
        None \<Rightarrow> Inl (Error (''Invalid URL: '' @ url))
      | Some urlObj \<Rightarrow>
          let u1 = set_hostname urlObj (toLowerCase (get_hostname urlObj));
              u2 = set_protocol u1 (toLowerCase (get_protocol u1));
              u3 = (if get_pathname u2 \<noteq> ''/'' \<and> endsWith (get_pathname u2) ''/''
                    then set_pathname u2 (butlast (get_pathname u2)) else u2);
              u4 = (if (get_protocol u3 = ''http:'' \<and> get_port u3 = ''80'') \<or>
                       (get_protocol u3 = ''https:'' \<and> get_port u3 = ''443'')
                    then set_port u3 [] else u3);
              u5 = (if get_search u4 \<noteq> []
                    then set_search u4
                           (searchParams_toString
                              (sort_with (\<lambda>a b. localeCompare (fst a) (fst b))
                                 (searchParams_entries (get_search u4))))
                    else u4);
              u6 = set_hash u5 []
          in Inr (toString u6))"

definition resolveUrl ::
  "url_constructor \<Rightarrow> url_constructor_base \<Rightarrow> string \<Rightarrow> string \<Rightarrow> error + string" where
  "resolveUrl new_url new_url_base baseUrl relativeUrl =
     (case new_url_base relativeUrl baseUrl of
        None \<Rightarrow> Inl (Error (''Failed to resolve URL: '' @ relativeUrl @ '' against '' @ baseUrl))
      | Some resolved \<Rightarrow>
          (case normalizeUrl new_url (toString resolved) of
             Inl e \<Rightarrow> Inl (Error (''Failed to resolve URL: '' @ relativeUrl @ '' against '' @ baseUrl))
           | Inr n \<Rightarrow> Inr n))"

definition isValidHttpUrl :: "url_constructor \<Rightarrow> string \<Rightarrow> bool" where
  "isValidHttpUrl new_url url =
     (case new_url url of
        None \<Rightarrow> False
      | Some urlObj \<Rightarrow> get_protocol urlObj = ''http:'' \<or> get_protocol urlObj = ''https:'')"

definition getDomain :: "url_constructor \<Rightarrow> string \<Rightarrow> error + string" where
  "getDomain new_url url =
     (case new_url url of
        None \<Rightarrow> Inl (Error (''Invalid URL: '' @ url))
      | Some urlObj \<Rightarrow> Inr (get_hostname urlObj))"

section \<open>Data model\<close>

text \<open>
  The record types of the crawl (\<^verbatim>\<open>types/crawl.ts\<close>), with the fields the source reads
  and writes. A JavaScript \<^verbatim>\<open>number\<close> that counts (a depth, a counter, a length) is a
  \<open>nat\<close>; a limit supplied by the caller is a \<open>real\<close>, since the request schema accepts
  any number in its range; a time in milliseconds is an \<open>int\<close>. NaN and the infinities
  are not modelled.
\<close>

datatype strategy = Domain | All

record CrawlOptions =
  startUrl :: string
  strategy :: strategy
  maxDepth :: real
  maxPages :: real
  concurrency :: real
  timeout :: real

record QueueItem =
  qi_url :: string
  qi_depth :: nat
  qi_parentUrl :: "string option"

record Meta =
  meta_description :: "string option"
  meta_keywords :: "string list option"

record ParsedPage =
  pp_title :: string
  pp_text :: string
  pp_links :: "string list"
  pp_meta :: Meta

record FetchResult =
  fr_url :: string
  fr_statusCode :: nat
  fr_html :: string
  fr_contentType :: string
  fr_size :: nat

record PageData =
  pd_url :: string
  pd_title :: string
  pd_text :: string
  pd_links :: "string list"
  pd_depth :: nat
  pd_scrapedAt :: int
  pd_meta :: Meta

record CrawlError =
  ce_url :: string
  ce_error :: string
  ce_timestamp :: int

record JobMetrics =
  pagesScraped :: nat
  linksDiscovered :: nat
  errors :: nat
  currentDepth :: nat

record CrawlResult =
  cr_jobId :: string
  cr_pagesScraped :: nat
  cr_linksDiscovered :: nat
  cr_duration :: int
  cr_errors :: "CrawlError list"
  cr_pages :: "PageData list"

text \<open>
  A JavaScript \<^verbatim>\<open>Set<string>\<close> keeps its elements in insertion order and ignores the
  insertion of an element it has.
\<close>

definition set_has :: "string list \<Rightarrow> string \<Rightarrow> bool" where
  "set_has s x = (x \<in> set s)"

definition set_add :: "string list \<Rightarrow> string \<Rightarrow> string list" where
  "set_add s x = (if x \<in> set s then s else s @ [x])"

section \<open>extractor.ts\<close>

definition skipped_protocol :: "string \<Rightarrow> bool" where
  "skipped_protocol trimmedHref =
     (startsWith trimmedHref ''mailto:'' \<or> startsWith trimmedHref ''tel:'' \<or>
      startsWith trimmedHref ''javascript:'' \<or> startsWith trimmedHref ''data:'' \<or>
      startsWith trimmedHref ''#'')"

text \<open>One turn of the loop over \<^verbatim>\<open>rawLinks\<close>; a throw inside it is caught and skips the link.\<close>

definition extractLinks_step ::
  "url_constructor \<Rightarrow> url_constructor_base \<Rightarrow> string \<Rightarrow> string list \<Rightarrow> string \<Rightarrow> string list" where
  "extractLinks_step new_url new_url_base baseUrl uniqueLinks href =
     (if href = [] \<or> length (trim href) = 0 then uniqueLinks
      else if skipped_protocol (trim href) then uniqueLinks
      else
        (case resolveUrl new_url new_url_base baseUrl (trim href) of
           Inl e \<Rightarrow> uniqueLinks
         | Inr absoluteUrl \<Rightarrow>
             if \<not> isValidHttpUrl new_url absoluteUrl then uniqueLinks
             else
               (case normalizeUrl new_url baseUrl of
                  Inl e \<Rightarrow> uniqueLinks
                | Inr normalizedBase \<Rightarrow>
                    if absoluteUrl = normalizedBase then uniqueLinks
                    else set_add uniqueLinks absoluteUrl)))"

definition extractLinks ::
  "url_constructor \<Rightarrow> url_constructor_base \<Rightarrow> string list \<Rightarrow> string \<Rightarrow> string list" where
  "extractLinks new_url new_url_base rawLinks baseUrl =
     foldl (extractLinks_step new_url new_url_base baseUrl) [] rawLinks"

section \<open>rules.ts\<close>

record CrawlRules =
  options :: CrawlOptions
  baseDomain :: string

text \<open>The constructor: \<^verbatim>\<open>getDomain\<close> throws on a start URL that does not parse.\<close>

definition new_CrawlRules :: "url_constructor \<Rightarrow> CrawlOptions \<Rightarrow> error + CrawlRules" where
  "new_CrawlRules new_url opts =
     (case getDomain new_url (startUrl opts) of
        Inl e \<Rightarrow> Inl e
      | Inr d \<Rightarrow> Inr \<lparr>options = opts, baseDomain = d\<rparr>)"

definition shouldCrawlDepth :: "CrawlRules \<Rightarrow> nat \<Rightarrow> bool" where
  "shouldCrawlDepth r depth = (real depth < maxDepth (options r))"

definition hasReachedPageLimit :: "CrawlRules \<Rightarrow> nat \<Rightarrow> bool" where
  "hasReachedPageLimit r n = (maxPages (options r) \<le> real n)"

definition isAllowedDomain :: "url_constructor \<Rightarrow> CrawlRules \<Rightarrow> string \<Rightarrow> bool" where
  "isAllowedDomain new_url r url =
     (if strategy (options r) = All then True
      else (case getDomain new_url url of
              Inl e \<Rightarrow> False
            | Inr urlDomain \<Rightarrow> urlDomain = baseDomain r))"

text \<open>
  \<^verbatim>\<open>hostname.match(/^(\d{1,3})\.(\d{1,3})\.(\d{1,3})\.(\d{1,3})$/)\<close>: the four groups,
  when the host name is four runs of one to three digits with dots between them. The
  host name that the \<^verbatim>\<open>URL\<close> class returns is made of ASCII characters, on which
  \<^verbatim>\<open>toLowerCase\<close> is the lower-casing of the first section.
\<close>

definition ipv4Regex :: "string \<Rightarrow> string list option" where
  "ipv4Regex h =
     (let groups = split_on (\<lambda>c. c = CHR ''.'') h
      in if length groups = 4 \<and>
            list_all (\<lambda>g. 1 \<le> length g \<and> length g \<le> 3 \<and> list_all isDigit g) groups
         then Some groups else None)"

definition isPrivateUrl :: "url_constructor \<Rightarrow> string \<Rightarrow> bool" where
  "isPrivateUrl new_url url =
     (case new_url url of
        None \<Rightarrow> False
      | Some urlObj \<Rightarrow>
          let hostname = toLowerCase (get_hostname urlObj)
          in if hostname = ''localhost'' \<or> hostname = ''127.0.0.1'' \<or> hostname = ''::1''
             then True
             else
               (case ipv4Regex hostname of
                  None \<Rightarrow> False
                | Some groups \<Rightarrow>
                    let octets = map number_of_digits groups
                    in if octets ! 0 = 10 then True
                       else if octets ! 0 = 172 \<and> 16 \<le> octets ! 1 \<and> octets ! 1 \<le> 31 then True
                       else if octets ! 0 = 192 \<and> octets ! 1 = 168 then True
                       else if octets ! 0 = 169 \<and> octets ! 1 = 254 then True
                       else False))"

definition shouldCrawl ::
  "url_constructor \<Rightarrow> CrawlRules \<Rightarrow> string \<Rightarrow> nat \<Rightarrow> nat \<Rightarrow> bool" where
  "shouldCrawl new_url r url depth pagesScrapedSoFar =
     (if \<not> shouldCrawlDepth r depth then False
      else if hasReachedPageLimit r pagesScrapedSoFar then False
      else if \<not> isAllowedDomain new_url r url then False
      else if isPrivateUrl new_url url then False
      else True)"

section \<open>routes/crawl.ts\<close>

text \<open>
  The bounds that \<^verbatim>\<open>CrawlRequestSchema\<close> puts on the numbers of a request:
  \<^verbatim>\<open>z.number().min(a).max(b)\<close> accepts every number from \<open>a\<close> to \<open>b\<close>, whole or not. (The
  check of \<^verbatim>\<open>startUrl\<close> is the schema library's and is not part of this predicate.)
\<close>

definition CrawlRequestSchema_numbers :: "CrawlOptions \<Rightarrow> bool" where
  "CrawlRequestSchema_numbers opts \<longleftrightarrow>
     1 \<le> maxDepth opts \<and> maxDepth opts \<le> 10 \<and>
     1 \<le> maxPages opts \<and> maxPages opts \<le> 1000 \<and>
     1 \<le> concurrency opts \<and> concurrency opts \<le> 20 \<and>
     1000 \<le> timeout opts \<and> timeout opts \<le> 60000"

section \<open>queue.ts\<close>

type_synonym CrawlQueue = "QueueItem list"

definition enqueue :: "CrawlQueue \<Rightarrow> QueueItem \<Rightarrow> CrawlQueue" where
  "enqueue items item = items @ [item]"

definition enqueueMany :: "CrawlQueue \<Rightarrow> QueueItem list \<Rightarrow> CrawlQueue" where
  "enqueueMany items new_items = items @ new_items"

definition dequeue :: "CrawlQueue \<Rightarrow> QueueItem option \<times> CrawlQueue" where
  "dequeue items = (case items of [] \<Rightarrow> (None, []) | x # xs \<Rightarrow> (Some x, xs))"

definition isEmpty :: "CrawlQueue \<Rightarrow> bool" where
  "isEmpty items = (length items = 0)"

section \<open>metrics.ts\<close>

definition new_MetricsTracker :: JobMetrics where
  "new_MetricsTracker = \<lparr>pagesScraped = 0, linksDiscovered = 0, errors = 0, currentDepth = 0\<rparr>"

definition incrementPagesScrapped :: "JobMetrics \<Rightarrow> JobMetrics" where
  "incrementPagesScrapped m = m\<lparr>pagesScraped := pagesScraped m + 1\<rparr>"

definition addLinksDiscovered :: "JobMetrics \<Rightarrow> nat \<Rightarrow> JobMetrics" where
  "addLinksDiscovered m count = m\<lparr>linksDiscovered := linksDiscovered m + count\<rparr>"

definition incrementErrors :: "JobMetrics \<Rightarrow> JobMetrics" where
  "incrementErrors m = m\<lparr>errors := errors m + 1\<rparr>"

definition updateDepth :: "JobMetrics \<Rightarrow> nat \<Rightarrow> JobMetrics" where
  "updateDepth m depth = (if currentDepth m < depth then m\<lparr>currentDepth := depth\<rparr> else m)"

definition getMetrics :: "JobMetrics \<Rightarrow> JobMetrics" where
  "getMetrics m = m"

section \<open>engine.ts\<close>

text \<open>
  What the engine calls and does not own: the constructor of the \<^verbatim>\<open>URL\<close> class, with one
  argument and with two, the HTTP fetch, the HTML parser and the clock. Each call of \<^verbatim>\<open>fetch\<close> and of \<^verbatim>\<open>Date.now()\<close> takes the number of such calls made
  before it, so the world may answer the same URL differently at different times.
  A thrown \<^verbatim>\<open>Error\<close> is the \<open>Inl\<close> of a sum.
\<close>

record world =
  new_URL :: url_constructor
  new_URL_base :: url_constructor_base
  fetch :: "nat \<Rightarrow> string \<Rightarrow> real \<Rightarrow> error + FetchResult"
  parse :: "string \<Rightarrow> string \<Rightarrow> error + ParsedPage"
  clock :: "nat \<Rightarrow> int"

text \<open>The local variables of \<^verbatim>\<open>crawl\<close>, and the count of calls to the world.\<close>

record crawl_state =
  queue :: CrawlQueue
  visited :: "string list"
  metrics :: JobMetrics
  pages :: "PageData list"
  errs :: "CrawlError list"
  tick :: nat

definition message :: "error \<Rightarrow> string" where
  "message e = (case e of Error m \<Rightarrow> m)"

text \<open>The \<^verbatim>\<open>catch\<close> block of the loop.\<close>

definition catch_block :: "world \<Rightarrow> QueueItem \<Rightarrow> error \<Rightarrow> crawl_state \<Rightarrow> crawl_state" where
  "catch_block w current err st =
     st\<lparr>errs := errs st @ [\<lparr>ce_url = qi_url current, ce_error = message err,
                              ce_timestamp = clock w (tick st)\<rparr>],
        metrics := incrementErrors (metrics st),
        tick := tick st + 1\<rparr>"

text \<open>The \<^verbatim>\<open>try\<close> block with its \<^verbatim>\<open>catch\<close>: fetch, parse, extract, store, enqueue.\<close>

definition try_block :: "world \<Rightarrow> CrawlOptions \<Rightarrow> QueueItem \<Rightarrow> crawl_state \<Rightarrow> crawl_state" where
  "try_block w opts current st =
     (case fetch w (tick st) (qi_url current) (timeout opts) of
        Inl err \<Rightarrow> catch_block w current err (st\<lparr>tick := tick st + 1\<rparr>)
      | Inr fetchResult \<Rightarrow>
          (case parse w (fr_html fetchResult) (qi_url current) of
             Inl err \<Rightarrow> catch_block w current err (st\<lparr>tick := tick st + 1\<rparr>)
           | Inr parsed \<Rightarrow>
               let links = extractLinks (new_URL w) (new_URL_base w) (pp_links parsed)
                             (qi_url current);
                   pageData = \<lparr>pd_url = qi_url current, pd_title = pp_title parsed,
                               pd_text = pp_text parsed, pd_links = links,
                               pd_depth = qi_depth current,
                               pd_scrapedAt = clock w (tick st + 1),
                               pd_meta = pp_meta parsed\<rparr>;
                   st1 = st\<lparr>pages := pages st @ [pageData],
                            metrics := addLinksDiscovered
                                         (incrementPagesScrapped (metrics st)) (length links),
                            tick := tick st + 2\<rparr>
               in if real (qi_depth current + 1) < maxDepth opts
                  then st1\<lparr>queue := enqueueMany (queue st1)
                                 (map (\<lambda>link. \<lparr>qi_url = link, qi_depth = qi_depth current + 1,
                                                 qi_parentUrl = Some (qi_url current)\<rparr>) links)\<rparr>
                  else st1))"

text \<open>
  The body of the \<^verbatim>\<open>while\<close> loop on the item just dequeued. The flag is \<open>True\<close> when the
  body leaves the loop by \<^verbatim>\<open>break\<close>; a \<^verbatim>\<open>continue\<close> goes back to the loop's test.
\<close>

definition loop_body ::
  "world \<Rightarrow> CrawlOptions \<Rightarrow> CrawlRules \<Rightarrow> QueueItem \<Rightarrow> crawl_state \<Rightarrow> bool \<times> crawl_state" where
  "loop_body w opts rules current st =
     (if set_has (visited st) (qi_url current) then (False, st)
      else
        let st1 = st\<lparr>visited := set_add (visited st) (qi_url current)\<rparr>
        in if \<not> shouldCrawl (new_URL w) rules (qi_url current) (qi_depth current)
                   (pagesScraped (getMetrics (metrics st1)))
           then (False, st1)
           else
             let st2 = st1\<lparr>metrics := updateDepth (metrics st1) (qi_depth current)\<rparr>;
                 st3 = try_block w opts current st2
             in (hasReachedPageLimit rules (pagesScraped (getMetrics (metrics st3))), st3))"

text \<open>
  The loop ends when the queue is empty or the body breaks. Each turn either scrapes a
  page while the page limit is not reached, or only shortens the queue.
\<close>

definition loop_measure :: "CrawlRules \<Rightarrow> crawl_state \<Rightarrow> nat \<times> nat" where
  "loop_measure rules st =
     (nat \<lceil>maxPages (options rules)\<rceil> - pagesScraped (metrics st), length (queue st))"

lemma try_block_cases:
  "(pagesScraped (metrics (try_block w opts current st)) = pagesScraped (metrics st) \<and>
    queue (try_block w opts current st) = queue st) \<or>
   pagesScraped (metrics (try_block w opts current st)) = pagesScraped (metrics st) + 1"
  by (simp add: try_block_def catch_block_def incrementErrors_def incrementPagesScrapped_def
        addLinksDiscovered_def Let_def split: sum.splits)

lemma loop_body_decreases:
  assumes "loop_body w opts rules current (st\<lparr>queue := q\<rparr>) = (b, st')"
    and "length q < length (queue st)"
  shows "(loop_measure rules st', loop_measure rules st) \<in> less_than <*lex*> less_than"
proof (cases "set_has (visited st) (qi_url current)")
  case True
  with assms show ?thesis
    by (auto simp: loop_body_def loop_measure_def)
next
  case False
  note nv = this
  show ?thesis
  proof (cases "shouldCrawl (new_URL w) rules (qi_url current) (qi_depth current) (pagesScraped (metrics st))")
    case False
    with nv assms show ?thesis
      by (auto simp: loop_body_def loop_measure_def getMetrics_def Let_def)
  next
    case True
    define st2 where
      "st2 = st\<lparr>queue := q, visited := set_add (visited st) (qi_url current),
                metrics := updateDepth (metrics st) (qi_depth current)\<rparr>"
    have st': "st' = try_block w opts current st2"
      using assms(1) nv True
      by (auto simp: loop_body_def getMetrics_def Let_def st2_def)
    have p2: "pagesScraped (metrics st2) = pagesScraped (metrics st)"
      by (simp add: st2_def updateDepth_def)
    have q2: "queue st2 = q"
      by (simp add: st2_def)
    from True have lim: "real (pagesScraped (metrics st)) < maxPages (options rules)"
      by (auto simp: shouldCrawl_def hasReachedPageLimit_def split: if_splits)
    then have "pagesScraped (metrics st) < nat \<lceil>maxPages (options rules)\<rceil>"
      by linarith
    with try_block_cases [of w opts current st2] p2 q2 assms(2) show ?thesis
      by (auto simp: loop_measure_def st')
  qed
qed

function crawl_loop :: "world \<Rightarrow> CrawlOptions \<Rightarrow> CrawlRules \<Rightarrow> crawl_state \<Rightarrow> crawl_state" where
  "crawl_loop w opts rules st =
     (if isEmpty (queue st) then st
      else
        (case dequeue (queue st) of
           (None, q) \<Rightarrow> st\<lparr>queue := q\<rparr>
         | (Some current, q) \<Rightarrow>
             (case loop_body w opts rules current (st\<lparr>queue := q\<rparr>) of
                (True, st') \<Rightarrow> st'
              | (False, st') \<Rightarrow> crawl_loop w opts rules st')))"
  by pat_completeness auto
termination
proof (relation "inv_image (less_than <*lex*> less_than)
                   (\<lambda>(w, opts, rules, st). loop_measure rules st)")
  show "wf (inv_image (less_than <*lex*> less_than)
          (\<lambda>(w :: world, opts :: CrawlOptions, rules, st). loop_measure rules st))"
    by (intro wf_inv_image wf_lex_prod wf_less_than)
next
  fix w :: world and opts :: CrawlOptions and rules st x y current b st'
  assume "\<not> isEmpty (queue st)" and d: "(x, y) = dequeue (queue st)" and "x = Some current"
    and lb: "(b, st') = loop_body w opts rules current (st\<lparr>queue := y\<rparr>)" and "b = False"
  then have "length y < length (queue st)"
    by (auto simp: dequeue_def split: list.splits)
  with lb [symmetric]
  have "(loop_measure rules st', loop_measure rules st) \<in> less_than <*lex*> less_than"
    by (rule loop_body_decreases)
  then show "((w, opts, rules, st'), (w, opts, rules, st))
      \<in> inv_image (less_than <*lex*> less_than) (\<lambda>(w, opts, rules, st). loop_measure rules st)"
    by simp
qed

declare crawl_loop.simps [simp del]

text \<open>
  \<^verbatim>\<open>crawl\<close> up to the end of the loop: the final values of its local variables, or the
  error thrown before the loop by the rules' constructor or by \<^verbatim>\<open>normalizeUrl\<close>.
\<close>

definition initial_state :: "string \<Rightarrow> crawl_state" where
  "initial_state start =
     \<lparr>queue = enqueue [] \<lparr>qi_url = start, qi_depth = 0, qi_parentUrl = None\<rparr>,
      visited = [], metrics = new_MetricsTracker, pages = [], errs = [], tick = 1\<rparr>"

definition crawl_run :: "world \<Rightarrow> CrawlOptions \<Rightarrow> error + crawl_state" where
  "crawl_run w opts =
     (case new_CrawlRules (new_URL w) opts of
        Inl e \<Rightarrow> Inl e
      | Inr rules \<Rightarrow>
          (case normalizeUrl (new_URL w) (startUrl opts) of
             Inl e \<Rightarrow> Inl e
           | Inr start \<Rightarrow> Inr (crawl_loop w opts rules (initial_state start))))"

definition crawl :: "world \<Rightarrow> CrawlOptions \<Rightarrow> error + CrawlResult" where
  "crawl w opts =
     (case crawl_run w opts of
        Inl e \<Rightarrow> Inl e
      | Inr st \<Rightarrow>
          let duration = clock w (tick st) - clock w 0;
              finalMetrics = getMetrics (metrics st)
          in Inr \<lparr>cr_jobId = [],
                  cr_pagesScraped = pagesScraped finalMetrics,
                  cr_linksDiscovered = linksDiscovered finalMetrics,
                  cr_duration = duration,
                  cr_errors = errs st,
                  cr_pages = pages st\<rparr>)"

section \<open>job-manager.ts\<close>

datatype status = Pending | Running | Completed | Failed

record Job =
  job_id :: string
  status :: status
  startTime :: int
  endTime :: "int option"
  job_options :: CrawlOptions
  job_metrics :: JobMetrics
  result :: "CrawlResult option"
  job_error :: "string option"

text \<open>
  \<^verbatim>\<open>executeCrawl\<close> keeps the \<^verbatim>\<open>Job\<close> object it read from the map across its \<^verbatim>\<open>await\<close>, and
  the map holds the same object, so the objects live in a store: a reference is an
  index into \<open>heap\<close>, and allocation appends. \<open>jobs\<close> is the \<^verbatim>\<open>Map<string, Job>\<close>, in
  insertion order. \<open>executing\<close> lists the activations of \<^verbatim>\<open>executeCrawl\<close> that wait at
  \<^verbatim>\<open>await crawl(job.options)\<close>, each with its \<^verbatim>\<open>jobId\<close> and its \<^verbatim>\<open>job\<close>.
\<close>

record JobManager =
  heap :: "Job list"
  jobs :: "(string \<times> nat) list"
  executing :: "(string \<times> nat) list"

definition new_JobManager :: JobManager where
  "new_JobManager = \<lparr>heap = [], jobs = [], executing = []\<rparr>"

definition map_get :: "(string \<times> nat) list \<Rightarrow> string \<Rightarrow> nat option" where
  "map_get m k = map_of m k"

definition map_set :: "(string \<times> nat) list \<Rightarrow> string \<Rightarrow> nat \<Rightarrow> (string \<times> nat) list" where
  "map_set m k v =
     (if k \<in> set (map fst m) then map (\<lambda>(k', v'). if k' = k then (k', v) else (k', v')) m
      else m @ [(k, v)])"

definition map_delete :: "(string \<times> nat) list \<Rightarrow> string \<Rightarrow> bool \<times> (string \<times> nat) list" where
  "map_delete m k = (k \<in> set (map fst m), filter (\<lambda>(k', v'). k' \<noteq> k) m)"

text \<open>The identifier is made of the time and of six random bytes in hexadecimal.\<close>

definition generateJobId :: "nat \<Rightarrow> string \<Rightarrow> string" where
  "generateJobId timestamp random = ''job_'' @ string_of_nat timestamp @ ''_'' @ random"

text \<open>\<^verbatim>\<open>executeCrawl\<close> from its start to its \<^verbatim>\<open>await\<close>.\<close>

definition executeCrawl_start :: "JobManager \<Rightarrow> string \<Rightarrow> JobManager" where
  "executeCrawl_start M jobId =
     (case map_get (jobs M) jobId of
        None \<Rightarrow> M
      | Some job \<Rightarrow>
          M\<lparr>heap := (heap M)[job := (heap M ! job)\<lparr>status := Running\<rparr>],
            jobs := map_set (jobs M) jobId job,
            executing := executing M @ [(jobId, job)]\<rparr>)"

text \<open>
  \<^verbatim>\<open>executeCrawl\<close> from its \<^verbatim>\<open>await\<close> to its end, at the time \<open>now\<close>: what it writes
  into the \<^verbatim>\<open>Job\<close> object when \<^verbatim>\<open>crawl\<close> returned (\<open>Inr\<close>) and when it threw (\<open>Inl\<close>, the
  \<^verbatim>\<open>catch\<close> block), and the \<^verbatim>\<open>this.jobs.set(jobId, job)\<close> that ends both.
\<close>

definition job_after_crawl :: "Job \<Rightarrow> string \<Rightarrow> error + CrawlResult \<Rightarrow> int \<Rightarrow> Job" where
  "job_after_crawl job jobId outcome now =
     (case outcome of
        Inr res \<Rightarrow>
          job\<lparr>status := Completed,
              endTime := Some now,
              result := Some (res\<lparr>cr_jobId := jobId\<rparr>),
              job_metrics := \<lparr>pagesScraped = cr_pagesScraped res,
                              linksDiscovered = cr_linksDiscovered res,
                              errors = length (cr_errors res),
                              currentDepth = 0\<rparr>\<rparr>
      | Inl err \<Rightarrow>
          job\<lparr>status := Failed,
              endTime := Some now,
              job_error := Some (message err)\<rparr>)"

definition executeCrawl_finish ::
  "JobManager \<Rightarrow> string \<times> nat \<Rightarrow> error + CrawlResult \<Rightarrow> int \<Rightarrow> JobManager" where
  "executeCrawl_finish M act outcome now =
     (case act of
        (jobId, job) \<Rightarrow>
          M\<lparr>heap := (heap M)[job := job_after_crawl (heap M ! job) jobId outcome now],
            jobs := map_set (jobs M) jobId job,
            executing := remove1 act (executing M)\<rparr>)"

text \<open>The first half of \<^verbatim>\<open>createJob\<close>: the new \<^verbatim>\<open>Job\<close> object, stored under its identifier.\<close>

definition store_job :: "JobManager \<Rightarrow> string \<Rightarrow> CrawlOptions \<Rightarrow> int \<Rightarrow> JobManager" where
  "store_job M jobId opts now =
     M\<lparr>heap := heap M @ [\<lparr>job_id = jobId, status = Pending, startTime = now, endTime = None,
                           job_options = opts,
                           job_metrics = \<lparr>pagesScraped = 0, linksDiscovered = 0, errors = 0,
                                           currentDepth = 0\<rparr>,
                           result = None, job_error = None\<rparr>],
       jobs := map_set (jobs M) jobId (length (heap M))\<rparr>"

text \<open>
  \<^verbatim>\<open>createJob\<close> calls \<^verbatim>\<open>executeCrawl\<close> and does not await it: the call runs up to the
  \<^verbatim>\<open>await\<close> inside it and \<^verbatim>\<open>createJob\<close> returns the identifier.
\<close>

definition createJob ::
  "JobManager \<Rightarrow> CrawlOptions \<Rightarrow> nat \<Rightarrow> string \<Rightarrow> int \<Rightarrow> string \<times> JobManager" where
  "createJob M opts timestamp random now =
     (let jobId = generateJobId timestamp random
      in (jobId, executeCrawl_start (store_job M jobId opts now) jobId))"

definition getJob :: "JobManager \<Rightarrow> string \<Rightarrow> Job option" where
  "getJob M jobId = map_option (\<lambda>job. heap M ! job) (map_get (jobs M) jobId)"

definition getJobStatus :: "JobManager \<Rightarrow> string \<Rightarrow> Job option" where
  "getJobStatus M jobId =
     (case map_get (jobs M) jobId of
        None \<Rightarrow> None
      | Some job \<Rightarrow>
          Some \<lparr>job_id = job_id (heap M ! job), status = status (heap M ! job),
                startTime = startTime (heap M ! job), endTime = endTime (heap M ! job),
                job_options = job_options (heap M ! job),
                job_metrics = job_metrics (heap M ! job),
                result = None, job_error = job_error (heap M ! job)\<rparr>)"

definition getJobResult :: "JobManager \<Rightarrow> string \<Rightarrow> Job option" where
  "getJobResult M jobId = map_option (\<lambda>job. heap M ! job) (map_get (jobs M) jobId)"

definition deleteJob :: "JobManager \<Rightarrow> string \<Rightarrow> bool \<times> JobManager" where
  "deleteJob M jobId =
     (fst (map_delete (jobs M) jobId), M\<lparr>jobs := snd (map_delete (jobs M) jobId)\<rparr>)"

definition is_old :: "Job \<Rightarrow> int \<Rightarrow> int \<Rightarrow> bool" where
  "is_old job maxAgeMs now =
     ((status job = Completed \<or> status job = Failed) \<and>
      (case endTime job of None \<Rightarrow> False | Some t \<Rightarrow> t \<noteq> 0 \<and> maxAgeMs < now - t))"

definition cleanupOldJobs :: "JobManager \<Rightarrow> int \<Rightarrow> int \<Rightarrow> nat \<times> JobManager" where
  "cleanupOldJobs M maxAgeMs now =
     (length (filter (\<lambda>(jobId, job). is_old (heap M ! job) maxAgeMs now) (jobs M)),
      M\<lparr>jobs := filter (\<lambda>(jobId, job). \<not> is_old (heap M ! job) maxAgeMs now) (jobs M)\<rparr>)"

text \<open>
  What can happen to a job manager: a call of one of its public methods, or the end of a
  crawl that an activation of \<^verbatim>\<open>executeCrawl\<close> awaits, in some world.
\<close>

inductive manager_step :: "JobManager \<Rightarrow> JobManager \<Rightarrow> bool" where
  create: "manager_step M (snd (createJob M opts timestamp random now))"
| finish: "act \<in> set (executing M) \<Longrightarrow>
           manager_step M
             (executeCrawl_finish M act (crawl w (job_options (heap M ! snd act))) now)"
| delete: "manager_step M (snd (deleteJob M jobId))"
| cleanup: "manager_step M (snd (cleanupOldJobs M maxAgeMs now))"

inductive reachable :: "JobManager \<Rightarrow> bool" where
  init: "reachable new_JobManager"
| step: "reachable M \<Longrightarrow> manager_step M M' \<Longrightarrow> reachable M'"

definition rank :: "status \<Rightarrow> nat" where
  "rank s = (case s of Pending \<Rightarrow> 0 | Running \<Rightarrow> 1 | Completed \<Rightarrow> 2 | Failed \<Rightarrow> 2)"

section \<open>The loop invariant of the engine\<close>

text \<open>
  What every turn of the loop keeps: the visited set has no duplicate; the URLs of the
  pages and of the errors are visited, pairwise different and different from each other;
  the counters count the lists; every page passed the depth check; and a page is
  scraped only below the page limit.
\<close>

definition crawl_inv :: "CrawlRules \<Rightarrow> crawl_state \<Rightarrow> bool" where
  "crawl_inv rules st \<longleftrightarrow>
     distinct (visited st) \<and>
     distinct (map pd_url (pages st) @ map ce_url (errs st)) \<and>
     set (map pd_url (pages st)) \<union> set (map ce_url (errs st)) \<subseteq> set (visited st) \<and>
     pagesScraped (metrics st) = length (pages st) \<and>
     errors (metrics st) = length (errs st) \<and>
     list_all (\<lambda>p. real (pd_depth p) < maxDepth (options rules)) (pages st) \<and>
     (pagesScraped (metrics st) = 0 \<or>
      real (pagesScraped (metrics st)) < maxPages (options rules) + 1)"

lemma crawl_inv_queue: "crawl_inv rules (st\<lparr>queue := q\<rparr>) = crawl_inv rules st"
  by (simp add: crawl_inv_def)

lemma crawl_inv_initial: "crawl_inv rules (initial_state start)"
  by (simp add: crawl_inv_def initial_state_def new_MetricsTracker_def)

lemma try_block_inv:
  assumes "crawl_inv rules st" and "qi_url cur \<in> set (visited st)"
    and "qi_url cur \<notin> set (map pd_url (pages st)) \<union> set (map ce_url (errs st))"
    and "real (qi_depth cur) < maxDepth (options rules)"
    and "real (pagesScraped (metrics st)) < maxPages (options rules)"
  shows "crawl_inv rules (try_block w opts cur st)"
  using assms
  by (auto simp: crawl_inv_def try_block_def catch_block_def incrementErrors_def
        incrementPagesScrapped_def addLinksDiscovered_def enqueueMany_def Let_def
      split: sum.splits)

lemma loop_body_inv:
  assumes "crawl_inv rules st" and "loop_body w opts rules cur st = (b, st')"
  shows "crawl_inv rules st'"
proof (cases "set_has (visited st) (qi_url cur)")
  case True
  with assms show ?thesis by (simp add: loop_body_def)
next
  case nv: False
  define st1 where "st1 = st\<lparr>visited := set_add (visited st) (qi_url cur)\<rparr>"
  have inv1: "crawl_inv rules st1"
    using assms(1) nv by (auto simp: crawl_inv_def st1_def set_add_def set_has_def)
  show ?thesis
  proof (cases "shouldCrawl (new_URL w) rules (qi_url cur) (qi_depth cur) (pagesScraped (metrics st))")
    case False
    with nv assms(2) have "st' = st1"
      by (auto simp: loop_body_def Let_def getMetrics_def st1_def)
    with inv1 show ?thesis by simp
  next
    case True
    define st2 where "st2 = st1\<lparr>metrics := updateDepth (metrics st1) (qi_depth cur)\<rparr>"
    have st': "st' = try_block w opts cur st2"
      using assms(2) nv True
      by (auto simp: loop_body_def Let_def getMetrics_def st1_def st2_def)
    have inv2: "crawl_inv rules st2"
      using inv1 by (auto simp: crawl_inv_def st2_def updateDepth_def)
    have vis: "qi_url cur \<in> set (visited st2)"
      by (simp add: st2_def st1_def set_add_def)
    have fresh: "qi_url cur \<notin> set (map pd_url (pages st2)) \<union> set (map ce_url (errs st2))"
      using assms(1) nv by (auto simp: crawl_inv_def st2_def st1_def set_has_def)
    have d: "real (qi_depth cur) < maxDepth (options rules)"
      using True by (auto simp: shouldCrawl_def shouldCrawlDepth_def split: if_splits)
    have p: "real (pagesScraped (metrics st2)) < maxPages (options rules)"
      using True
      by (auto simp: shouldCrawl_def hasReachedPageLimit_def st2_def st1_def updateDepth_def
          split: if_splits)
    show ?thesis
      unfolding st' by (rule try_block_inv [OF inv2 vis fresh d p])
  qed
qed

lemma crawl_loop_empty:
  "isEmpty (queue st) \<Longrightarrow> crawl_loop w opts rules st = st"
  by (subst crawl_loop.simps) simp

lemma crawl_loop_step:
  "queue st = cur # q \<Longrightarrow>
   crawl_loop w opts rules st =
     (case loop_body w opts rules cur (st\<lparr>queue := q\<rparr>) of
        (True, st') \<Rightarrow> st'
      | (False, st') \<Rightarrow> crawl_loop w opts rules st')"
  by (subst crawl_loop.simps) (simp add: isEmpty_def dequeue_def)

lemma crawl_loop_inv:
  "crawl_inv rules st \<Longrightarrow> crawl_inv rules (crawl_loop w opts rules st)"
proof (induction w opts rules st rule: crawl_loop.induct)
  case (1 w opts rules st)
  show ?case
  proof (cases "queue st")
    case Nil
    with "1.prems" show ?thesis by (simp add: crawl_loop_empty isEmpty_def)
  next
    case (Cons cur q)
    then have ne: "\<not> isEmpty (queue st)" and dq: "dequeue (queue st) = (Some cur, q)"
      by (simp_all add: isEmpty_def dequeue_def)
    obtain b st' where lb: "loop_body w opts rules cur (st\<lparr>queue := q\<rparr>) = (b, st')"
      by (cases "loop_body w opts rules cur (st\<lparr>queue := q\<rparr>)")
    have "crawl_inv rules (st\<lparr>queue := q\<rparr>)"
      using "1.prems" by (simp only: crawl_inv_queue)
    then have inv': "crawl_inv rules st'"
      using lb by (rule loop_body_inv)
    show ?thesis
    proof (cases b)
      case True
      with Cons lb inv' show ?thesis by (simp add: crawl_loop_step)
    next
      case False
      with Cons lb have "crawl_loop w opts rules st = crawl_loop w opts rules st'"
        by (simp add: crawl_loop_step)
      moreover have "crawl_inv rules (crawl_loop w opts rules st')"
        using "1.IH" [OF ne dq [symmetric] refl lb [symmetric]] False inv' by simp
      ultimately show ?thesis by simp
    qed
  qed
qed

lemma crawl_run_inv:
  assumes "crawl_run w opts = Inr st"
  shows "\<exists>rules. new_CrawlRules (new_URL w) opts = Inr rules \<and> options rules = opts \<and> crawl_inv rules st"
  using assms
  by (auto simp: crawl_run_def new_CrawlRules_def crawl_inv_initial crawl_loop_inv
      split: sum.splits)

section \<open>Facts about one turn of the loop\<close>

lemma crawl_Inr:
  "crawl w opts = Inr r \<Longrightarrow>
   \<exists>st. crawl_run w opts = Inr st \<and> cr_pages r = pages st \<and> cr_errors r = errs st \<and>
        cr_pagesScraped r = pagesScraped (metrics st) \<and>
        cr_linksDiscovered r = linksDiscovered (metrics st)"
  by (auto simp: crawl_def getMetrics_def Let_def split: sum.splits)

lemma try_block_visited: "visited (try_block w opts cur st) = visited st"
  by (simp add: try_block_def catch_block_def Let_def split: sum.splits)

lemma loop_body_visited_old:
  "set_has (visited st) (qi_url cur) \<Longrightarrow> loop_body w opts rules cur st = (False, st)"
  by (simp add: loop_body_def)

lemma loop_body_skip:
  "\<not> set_has (visited st) (qi_url cur) \<Longrightarrow>
   \<not> shouldCrawl (new_URL w) rules (qi_url cur) (qi_depth cur) (pagesScraped (metrics st)) \<Longrightarrow>
   loop_body w opts rules cur st = (False, st\<lparr>visited := visited st @ [qi_url cur]\<rparr>)"
  by (simp add: loop_body_def set_add_def set_has_def getMetrics_def)

lemma loop_body_crawl:
  "\<not> set_has (visited st) (qi_url cur) \<Longrightarrow>
   shouldCrawl (new_URL w) rules (qi_url cur) (qi_depth cur) (pagesScraped (metrics st)) \<Longrightarrow>
   loop_body w opts rules cur st =
     (hasReachedPageLimit rules
        (pagesScraped (metrics (try_block w opts cur
           (st\<lparr>visited := visited st @ [qi_url cur],
               metrics := updateDepth (metrics st) (qi_depth cur)\<rparr>)))),
      try_block w opts cur
        (st\<lparr>visited := visited st @ [qi_url cur],
            metrics := updateDepth (metrics st) (qi_depth cur)\<rparr>))"
  by (simp add: loop_body_def set_add_def set_has_def getMetrics_def Let_def)

text \<open>The error that the \<^verbatim>\<open>try\<close> block throws, if it throws, when the world has had \<open>k\<close> calls.\<close>

definition thrown :: "world \<Rightarrow> CrawlOptions \<Rightarrow> QueueItem \<Rightarrow> nat \<Rightarrow> error option" where
  "thrown w opts current k =
     (case fetch w k (qi_url current) (timeout opts) of
        Inl err \<Rightarrow> Some err
      | Inr fetchResult \<Rightarrow>
          (case parse w (fr_html fetchResult) (qi_url current) of
             Inl err \<Rightarrow> Some err
           | Inr parsed \<Rightarrow> None))"

lemma try_block_thrown:
  "thrown w opts cur (tick st) = Some err \<Longrightarrow>
   try_block w opts cur st =
     st\<lparr>errs := errs st @ [\<lparr>ce_url = qi_url cur, ce_error = message err,
                              ce_timestamp = clock w (tick st + 1)\<rparr>],
        metrics := incrementErrors (metrics st),
        tick := tick st + 2\<rparr>"
  by (auto simp: thrown_def try_block_def catch_block_def split: sum.splits)

lemma try_block_queue:
  "thrown w opts cur (tick st) = None \<Longrightarrow>
   queue (try_block w opts cur st) =
     queue st @
       (if real (qi_depth cur + 1) < maxDepth opts
        then map (\<lambda>link. \<lparr>qi_url = link, qi_depth = qi_depth cur + 1,
                             qi_parentUrl = Some (qi_url cur)\<rparr>)
               (pd_links (last (pages (try_block w opts cur st))))
        else [])"
  by (auto simp: thrown_def try_block_def enqueueMany_def Let_def split: sum.splits)

lemma try_block_errs_mono: "set (errs st) \<subseteq> set (errs (try_block w opts cur st))"
  by (auto simp: try_block_def catch_block_def Let_def split: sum.splits)

lemma loop_body_errs_mono:
  "loop_body w opts rules cur st = (b, st') \<Longrightarrow> set (errs st) \<subseteq> set (errs st')"
  using try_block_errs_mono
  by (fastforce simp: loop_body_def Let_def split: if_splits)

lemma crawl_loop_errs_mono:
  "set (errs st) \<subseteq> set (errs (crawl_loop w opts rules st))"
proof (induction w opts rules st rule: crawl_loop.induct)
  case (1 w opts rules st)
  show ?case
  proof (cases "queue st")
    case Nil
    then show ?thesis by (simp add: crawl_loop_empty isEmpty_def)
  next
    case (Cons cur q)
    then have ne: "\<not> isEmpty (queue st)" and dq: "dequeue (queue st) = (Some cur, q)"
      by (simp_all add: isEmpty_def dequeue_def)
    obtain b st' where lb: "loop_body w opts rules cur (st\<lparr>queue := q\<rparr>) = (b, st')"
      by (cases "loop_body w opts rules cur (st\<lparr>queue := q\<rparr>)")
    from loop_body_errs_mono [OF lb] have m: "set (errs st) \<subseteq> set (errs st')"
      by simp
    show ?thesis
    proof (cases b)
      case True
      with Cons lb m show ?thesis by (simp add: crawl_loop_step)
    next
      case False
      with Cons lb have "crawl_loop w opts rules st = crawl_loop w opts rules st'"
        by (simp add: crawl_loop_step)
      moreover have "set (errs st') \<subseteq> set (errs (crawl_loop w opts rules st'))"
        using "1.IH" [OF ne dq [symmetric] refl lb [symmetric]] False by simp
      ultimately show ?thesis using m by auto
    qed
  qed
qed

lemma crawl_total:
  "new_URL w (startUrl opts) \<noteq> None \<Longrightarrow> \<exists>r. crawl w opts = Inr r"
  by (auto simp: crawl_def crawl_run_def new_CrawlRules_def getDomain_def normalizeUrl_def
        Let_def split: option.splits)

section \<open>Facts about the rules\<close>
















section \<open>Facts about the job manager\<close>

text \<open>
  Every waiting activation of \<^verbatim>\<open>executeCrawl\<close> holds a job that is running, and no two of
  them hold the same job.
\<close>

definition manager_inv :: "JobManager \<Rightarrow> bool" where
  "manager_inv M \<longleftrightarrow>
     (\<forall>act\<in>set (executing M). snd act < length (heap M) \<and> status (heap M ! snd act) = Running) \<and>
     distinct (map snd (executing M))"

lemma map_of_replace:
  "k \<in> fst ` set m \<Longrightarrow>
   map_of (map (\<lambda>(k', v'). if k' = k then (k', v) else (k', v')) m) k = Some v"
  by (induction m) auto

lemma map_get_set: "map_get (map_set m k v) k = Some v"
proof (cases "k \<in> fst ` set m")
  case True
  then show ?thesis
    by (simp add: map_get_def map_set_def map_of_replace)
next
  case False
  then have "map_of m k = None"
    by (simp add: map_of_eq_None_iff)
  with False show ?thesis
    by (simp add: map_get_def map_set_def map_add_def)
qed

definition pending_job :: "string \<Rightarrow> CrawlOptions \<Rightarrow> int \<Rightarrow> Job" where
  "pending_job jobId opts now =
     \<lparr>job_id = jobId, status = Pending, startTime = now, endTime = None, job_options = opts,
      job_metrics = \<lparr>pagesScraped = 0, linksDiscovered = 0, errors = 0, currentDepth = 0\<rparr>,
      result = None, job_error = None\<rparr>"

lemma store_job_get:
  "getJob (store_job M jobId opts now) jobId = Some (pending_job jobId opts now)"
  by (simp add: getJob_def store_job_def map_get_set pending_job_def)

lemma createJob_eq:
  "createJob M opts timestamp random now =
     (generateJobId timestamp random,
      \<lparr>heap = heap M @ [(pending_job (generateJobId timestamp random) opts now)\<lparr>status := Running\<rparr>],
       jobs = map_set (map_set (jobs M) (generateJobId timestamp random) (length (heap M)))
                (generateJobId timestamp random) (length (heap M)),
       executing = executing M @ [(generateJobId timestamp random, length (heap M))]\<rparr>)"
  by (simp add: createJob_def executeCrawl_start_def store_job_def map_get_set pending_job_def
        Let_def)

lemma finish_heap:
  "heap (executeCrawl_finish M act outcome now) =
     (heap M)[snd act := job_after_crawl (heap M ! snd act) (fst act) outcome now]"
  by (cases act) (simp add: executeCrawl_finish_def)

lemma job_after_crawl_status:
  "status (job_after_crawl job jobId outcome now) =
     (case outcome of Inr res \<Rightarrow> Completed | Inl err \<Rightarrow> Failed)"
  by (simp add: job_after_crawl_def split: sum.splits)

lemma finish_executing:
  "executing (executeCrawl_finish M act outcome now) = remove1 act (executing M)"
  by (cases act) (simp add: executeCrawl_finish_def)

lemma distinct_map_remove1:
  "distinct (map f xs) \<Longrightarrow> distinct (map f (remove1 x xs))"
proof (induction xs)
  case Nil
  show ?case by simp
next
  case (Cons y ys)
  have "f ` set (remove1 x ys) \<subseteq> f ` set ys"
    using set_remove1_subset [of x ys] by blast
  with Cons show ?case by auto
qed

lemma manager_step_inv:
  assumes "manager_inv M" and "manager_step M M'"
  shows "manager_inv M'"
  using assms(2)
proof cases
  case (create opts timestamp random now)
  with assms(1) show ?thesis
    by (auto simp: createJob_eq manager_inv_def nth_append)
next
  case (finish act w now)
  have d: "distinct (map snd (executing M))"
    using assms(1) by (simp add: manager_inv_def)
  have others: "snd a \<noteq> snd act" if "a \<in> set (remove1 act (executing M))" for a
  proof -
    from d have da: "distinct (executing M)" by (rule distinct_map [THEN iffD1, THEN conjunct1])
    from that da have "a \<in> set (executing M)" "a \<noteq> act" by auto
    with d finish(2) show ?thesis
      by (auto simp: distinct_map inj_on_def)
  qed
  have d': "distinct (map snd (remove1 act (executing M)))"
    using d by (rule distinct_map_remove1)
  show ?thesis
    unfolding manager_inv_def finish(1) finish_heap finish_executing
  proof (intro conjI ballI)
    fix a
    assume a: "a \<in> set (remove1 act (executing M))"
    then have "a \<in> set (executing M)"
      using set_remove1_subset by fast
    with assms(1) have "snd a < length (heap M)" "status (heap M ! snd a) = Running"
      by (auto simp: manager_inv_def)
    moreover have "snd act \<noteq> snd a"
      using others [OF a] by simp
    ultimately show "snd a <
        length ((heap M)[snd act := job_after_crawl (heap M ! snd act) (fst act)
                                      (crawl w (job_options (heap M ! snd act))) now])"
      "status ((heap M)[snd act := job_after_crawl (heap M ! snd act) (fst act)
                                     (crawl w (job_options (heap M ! snd act))) now] ! snd a) =
       Running"
      by simp_all
  next
    show "distinct (map snd (remove1 act (executing M)))"
      by (rule d')
  qed
next
  case (delete jobId)
  with assms(1) show ?thesis by (simp add: manager_inv_def deleteJob_def)
next
  case (cleanup maxAgeMs now)
  with assms(1) show ?thesis by (simp add: manager_inv_def cleanupOldJobs_def)
qed

lemma reachable_inv: "reachable M \<Longrightarrow> manager_inv M"
proof (induction rule: reachable.induct)
  case init
  show ?case by (simp add: manager_inv_def new_JobManager_def)
next
  case (step M M')
  then show ?case by (blast intro: manager_step_inv)
qed

lemma manager_step_status:
  assumes "manager_inv M" and "manager_step M M'" and "job < length (heap M)"
  shows "status (heap M' ! job) = status (heap M ! job) \<or>
         (status (heap M ! job) = Running \<and>
          (status (heap M' ! job) = Completed \<or> status (heap M' ! job) = Failed))"
  using assms(2)
proof cases
  case (create opts timestamp random now)
  with assms(3) show ?thesis by (simp add: createJob_eq nth_append)
next
  case (finish act w now)
  with assms(1) have r: "snd act < length (heap M)" "status (heap M ! snd act) = Running"
    by (auto simp: manager_inv_def)
  show ?thesis
  proof (cases "job = snd act")
    case True
    with r show ?thesis
      unfolding finish(1) finish_heap by (simp add: job_after_crawl_status split: sum.splits)
  next
    case False
    then show ?thesis
      unfolding finish(1) finish_heap by simp
  qed
next
  case (delete jobId)
  then show ?thesis by (simp add: deleteJob_def)
next
  case (cleanup maxAgeMs now)
  then show ?thesis by (simp add: cleanupOldJobs_def)
qed

lemma manager_step_heap:
  assumes "manager_step M M'"
  shows "length (heap M) \<le> length (heap M') \<and>
         (\<forall>job. length (heap M) \<le> job \<and> job < length (heap M') \<longrightarrow> status (heap M' ! job) = Running)"
  using assms
proof cases
  case (create opts timestamp random now)
  then show ?thesis
    by (auto simp: createJob_eq nth_append pending_job_def)
next
  case (finish act w now)
  then show ?thesis by (auto simp: finish_heap)
next
  case (delete jobId)
  then show ?thesis by (auto simp: deleteJob_def)
next
  case (cleanup maxAgeMs now)
  then show ?thesis by (auto simp: cleanupOldJobs_def)
qed

lemma crawl_invalid_seed:
  "new_URL w (startUrl opts) = None \<Longrightarrow>
   crawl w opts = Inl (Error (''Invalid URL: '' @ startUrl opts))"
  by (simp add: crawl_def crawl_run_def new_CrawlRules_def getDomain_def)

section \<open>A small web\<close>

text \<open>
  A site of three pages for the concrete runs below, on a platform whose \<^verbatim>\<open>URL\<close>
  constructor is the parser of the first sections. The start page links to \<^verbatim>\<open>/c\<close> and
  \<^verbatim>\<open>/d\<close>; every other page links back to the start page, so the link graph has a cycle;
  the fetch of \<^verbatim>\<open>/c\<close> fails. The crawl goes three levels deep and its page limit is the
  parameter.
\<close>

definition demo_page :: "string \<Rightarrow> FetchResult" where
  "demo_page url = \<lparr>fr_url = url, fr_statusCode = 200, fr_html = url,
                     fr_contentType = ''text/html'', fr_size = length url\<rparr>"

definition demo_world :: world where
  "demo_world =
     \<lparr>new_URL = parseURL,
      new_URL_base = parseURL_base,
      fetch = (\<lambda>k url t. if url = ''http://a.b/c''
                          then Inl (Error ''Failed to fetch http://a.b/c: timeout'')
                          else Inr (demo_page url)),
      parse = (\<lambda>html url.
                 Inr \<lparr>pp_title = ''No title'', pp_text = [],
                      pp_links = (if url = ''http://a.b/'' then [''/c'', ''/d''] else [''/'']),
                      pp_meta = \<lparr>meta_description = None, meta_keywords = None\<rparr>\<rparr>),
      clock = (\<lambda>k. 1000 + int k)\<rparr>"

definition demo_options :: "real \<Rightarrow> CrawlOptions" where
  "demo_options limit =
     \<lparr>startUrl = ''http://a.b'', strategy = Domain, maxDepth = 3, maxPages = limit,
      concurrency = 5, timeout = 10000\<rparr>"

definition demo_rules :: "real \<Rightarrow> CrawlRules" where
  "demo_rules limit = \<lparr>options = demo_options limit, baseDomain = ''a.b''\<rparr>"

definition demo_item :: "string \<Rightarrow> nat \<Rightarrow> string option \<Rightarrow> QueueItem" where
  "demo_item url depth parent = \<lparr>qi_url = url, qi_depth = depth, qi_parentUrl = parent\<rparr>"

definition demo_start_page :: PageData where
  "demo_start_page =
     \<lparr>pd_url = ''http://a.b/'', pd_title = ''No title'', pd_text = [],
      pd_links = [''http://a.b/c'', ''http://a.b/d''], pd_depth = 0, pd_scrapedAt = 1002,
      pd_meta = \<lparr>meta_description = None, meta_keywords = None\<rparr>\<rparr>"

definition demo_error :: CrawlError where
  "demo_error = \<lparr>ce_url = ''http://a.b/c'', ce_error = ''Failed to fetch http://a.b/c: timeout'',
                  ce_timestamp = 1004\<rparr>"

text \<open>The state after the start page, with \<^verbatim>\<open>/c\<close> and \<^verbatim>\<open>/d\<close> in the queue.\<close>

definition demo_before_c :: crawl_state where
  "demo_before_c =
     \<lparr>queue = [demo_item ''http://a.b/c'' 1 (Some ''http://a.b/''),
               demo_item ''http://a.b/d'' 1 (Some ''http://a.b/'')],
      visited = [''http://a.b/''],
      metrics = \<lparr>pagesScraped = 1, linksDiscovered = 2, errors = 0, currentDepth = 0\<rparr>,
      pages = [demo_start_page], errs = [], tick = 3\<rparr>"

text \<open>The state after the failed fetch of \<^verbatim>\<open>/c\<close>, with \<^verbatim>\<open>/d\<close> in the queue.\<close>

definition demo_before_d :: crawl_state where
  "demo_before_d =
     \<lparr>queue = [demo_item ''http://a.b/d'' 1 (Some ''http://a.b/'')],
      visited = [''http://a.b/'', ''http://a.b/c''],
      metrics = \<lparr>pagesScraped = 1, linksDiscovered = 2, errors = 1, currentDepth = 1\<rparr>,
      pages = [demo_start_page], errs = [demo_error], tick = 5\<rparr>"

text \<open>The state at the end, with what the queue still holds.\<close>

definition demo_final :: "CrawlQueue \<Rightarrow> crawl_state" where
  "demo_final q =
     \<lparr>queue = q,
      visited = [''http://a.b/'', ''http://a.b/c'', ''http://a.b/d''],
      metrics = \<lparr>pagesScraped = 2, linksDiscovered = 3, errors = 1, currentDepth = 1\<rparr>,
      pages = [demo_start_page,
               \<lparr>pd_url = ''http://a.b/d'', pd_title = ''No title'', pd_text = [],
                 pd_links = [''http://a.b/''], pd_depth = 1, pd_scrapedAt = 1006,
                 pd_meta = \<lparr>meta_description = None, meta_keywords = None\<rparr>\<rparr>],
      errs = [demo_error],
      tick = 7\<rparr>"

definition demo_result :: CrawlResult where
  "demo_result =
     \<lparr>cr_jobId = [], cr_pagesScraped = 2, cr_linksDiscovered = 3, cr_duration = 7,
      cr_errors = errs (demo_final []), cr_pages = pages (demo_final [])\<rparr>"

lemma demo_start:
  "getDomain parseURL ''http://a.b'' = Inr ''a.b''"
  "normalizeUrl parseURL ''http://a.b'' = Inr ''http://a.b/''"
  by code_simp+

lemma demo_domains:
  "getDomain parseURL ''http://a.b/'' = Inr ''a.b''"
  "getDomain parseURL ''http://a.b/c'' = Inr ''a.b''"
  "getDomain parseURL ''http://a.b/d'' = Inr ''a.b''"
  by code_simp+

lemma demo_private:
  "isPrivateUrl parseURL ''http://a.b/'' = False"
  "isPrivateUrl parseURL ''http://a.b/c'' = False"
  "isPrivateUrl parseURL ''http://a.b/d'' = False"
  by code_simp+

lemma demo_links:
  "extractLinks parseURL parseURL_base [''/c'', ''/d''] ''http://a.b/'' = [''http://a.b/c'', ''http://a.b/d'']"
  "extractLinks parseURL parseURL_base [''/''] ''http://a.b/d'' = [''http://a.b/'']"
  by code_simp+

lemma demo_clock: "clock demo_world k = 1000 + int k"
  by (simp add: demo_world_def)

lemma demo_constructor:
  "new_URL demo_world = parseURL"
  "new_URL_base demo_world = parseURL_base"
  by (simp_all add: demo_world_def)

lemmas engine_defs =
  crawl_run_def new_CrawlRules_def initial_state_def enqueue_def enqueueMany_def
  crawl_loop_step crawl_loop_empty isEmpty_def loop_body_def set_has_def set_add_def
  shouldCrawl_def shouldCrawlDepth_def hasReachedPageLimit_def isAllowedDomain_def
  getMetrics_def updateDepth_def try_block_def catch_block_def incrementErrors_def
  incrementPagesScrapped_def addLinksDiscovered_def new_MetricsTracker_def message_def Let_def

lemmas demo_defs =
  demo_world_def demo_options_def demo_rules_def demo_page_def demo_item_def
  demo_start_page_def demo_error_def demo_before_c_def demo_before_d_def demo_final_def
  demo_start demo_domains demo_private demo_links

lemma demo_run_3: "crawl_run demo_world (demo_options 3) = Inr (demo_final [])"
  by (simp add: engine_defs demo_defs)

lemma demo_run_2:
  "crawl_run demo_world (demo_options 2) =
     Inr (demo_final [demo_item ''http://a.b/'' 2 (Some ''http://a.b/d'')])"
  by (simp add: engine_defs demo_defs)

lemma demo_run_frac:
  "crawl_run demo_world (demo_options (3 / 2)) =
     Inr (demo_final [demo_item ''http://a.b/'' 2 (Some ''http://a.b/d'')])"
  by (simp add: engine_defs demo_defs)

lemma demo_crawl_3: "crawl demo_world (demo_options 3) = Inr demo_result"
  by (simp add: crawl_def demo_run_3 demo_result_def demo_final_def demo_clock getMetrics_def)

lemma demo_crawl_2: "crawl demo_world (demo_options 2) = Inr demo_result"
  by (simp add: crawl_def demo_run_2 demo_result_def demo_final_def demo_clock getMetrics_def)

lemma demo_crawl_frac: "crawl demo_world (demo_options (3 / 2)) = Inr demo_result"
  by (simp add: crawl_def demo_run_frac demo_result_def demo_final_def demo_clock getMetrics_def)

lemma demo_shouldCrawl:
  "1 < limit \<Longrightarrow> shouldCrawl parseURL (demo_rules limit) ''http://a.b/c'' 1 1"
  "1 < limit \<Longrightarrow> shouldCrawl parseURL (demo_rules limit) ''http://a.b/d'' 1 1"
  by (simp_all add: engine_defs demo_defs)

lemma demo_try_c:
  "try_block demo_world opts (demo_item ''http://a.b/c'' 1 (Some ''http://a.b/''))
     (demo_before_c\<lparr>queue := [demo_item ''http://a.b/d'' 1 (Some ''http://a.b/'')],
                     visited := [''http://a.b/'', ''http://a.b/c''],
                     metrics := updateDepth (metrics demo_before_c) 1\<rparr>) = demo_before_d"
  by (simp add: engine_defs demo_defs)

lemma demo_try_d:
  "try_block demo_world (demo_options limit) (demo_item ''http://a.b/d'' 1 (Some ''http://a.b/''))
     (demo_before_d\<lparr>queue := [],
                     visited := [''http://a.b/'', ''http://a.b/c'', ''http://a.b/d''],
                     metrics := updateDepth (metrics demo_before_d) 1\<rparr>) =
   demo_final [demo_item ''http://a.b/'' 2 (Some ''http://a.b/d'')]"
  by (simp add: engine_defs demo_defs)

section \<open>The page limit\<close>

text \<open>
  What the engine keeps of the page limit. The count of a result is 0 or below
  \<open>maxPages + 1\<close>, so it is at most \<open>maxPages\<close> when \<open>maxPages\<close> is a natural number. When
  the turn that processed a URL ends with the count at or above \<open>maxPages\<close>, the loop
  returns at once with the state of that turn, whatever its queue still holds.
\<close>

theorem page_limit_bound:
  fixes st :: crawl_state and cur :: QueueItem and rules :: CrawlRules
  assumes "crawl w opts = Inr r"
  shows "(cr_pagesScraped r = 0 \<or> real (cr_pagesScraped r) < maxPages opts + 1) \<and>
         (maxPages opts = real n \<longrightarrow> cr_pagesScraped r \<le> n) \<and>
         (queue st = cur # q \<and> \<not> set_has (visited st) (qi_url cur) \<and>
          shouldCrawl (new_URL w) rules (qi_url cur) (qi_depth cur) (pagesScraped (metrics st)) \<and>
          hasReachedPageLimit rules
            (pagesScraped (metrics (try_block w opts cur
               (st\<lparr>queue := q, visited := visited st @ [qi_url cur],
                   metrics := updateDepth (metrics st) (qi_depth cur)\<rparr>)))) \<longrightarrow>
          crawl_loop w opts rules st =
            try_block w opts cur
              (st\<lparr>queue := q, visited := visited st @ [qi_url cur],
                  metrics := updateDepth (metrics st) (qi_depth cur)\<rparr>))"
proof (intro conjI impI)
  from assms obtain final where final: "crawl_run w opts = Inr final"
    "cr_pagesScraped r = pagesScraped (metrics final)"
    using crawl_Inr by blast
  then obtain rules' where "options rules' = opts" "crawl_inv rules' final"
    using crawl_run_inv by blast
  then show b: "cr_pagesScraped r = 0 \<or> real (cr_pagesScraped r) < maxPages opts + 1"
    using final(2) by (auto simp: crawl_inv_def)
  assume "maxPages opts = real n"
  with b show "cr_pagesScraped r \<le> n" by auto
next
  assume a: "queue st = cur # q \<and> \<not> set_has (visited st) (qi_url cur) \<and>
          shouldCrawl (new_URL w) rules (qi_url cur) (qi_depth cur) (pagesScraped (metrics st)) \<and>
          hasReachedPageLimit rules
            (pagesScraped (metrics (try_block w opts cur
               (st\<lparr>queue := q, visited := visited st @ [qi_url cur],
                   metrics := updateDepth (metrics st) (qi_depth cur)\<rparr>))))"
  then have "loop_body w opts rules cur (st\<lparr>queue := q\<rparr>) =
      (True, try_block w opts cur
                (st\<lparr>queue := q, visited := visited st @ [qi_url cur],
                    metrics := updateDepth (metrics st) (qi_depth cur)\<rparr>))"
    by (subst loop_body_crawl) simp_all
  with a show "crawl_loop w opts rules st =
              try_block w opts cur
                (st\<lparr>queue := q, visited := visited st @ [qi_url cur],
                    metrics := updateDepth (metrics st) (qi_depth cur)\<rparr>)"
    by (simp add: crawl_loop_step)
qed

theorem page_limit_bound_witness:
  "crawl demo_world (demo_options 2) = Inr demo_result \<and>
   maxPages (demo_options 2) = real 2 \<and>
   cr_pagesScraped demo_result \<le> 2 \<and>
   crawl_loop demo_world (demo_options 2) (demo_rules 2) demo_before_d =
     demo_final [demo_item ''http://a.b/'' 2 (Some ''http://a.b/d'')] \<and>
   hasReachedPageLimit (demo_rules 2)
     (pagesScraped (metrics (demo_final [demo_item ''http://a.b/'' 2 (Some ''http://a.b/d'')]))) \<and>
   queue (demo_final [demo_item ''http://a.b/'' 2 (Some ''http://a.b/d'')]) \<noteq> []"
proof -
  have c: "crawl demo_world (demo_options 2) = Inr demo_result"
    by (rule demo_crawl_2)
  have m: "maxPages (demo_options 2) = real 2"
    by (simp add: demo_options_def)
  have q: "queue demo_before_d = demo_item ''http://a.b/d'' 1 (Some ''http://a.b/'') # []"
    and v: "\<not> set_has (visited demo_before_d) (qi_url (demo_item ''http://a.b/d'' 1 (Some ''http://a.b/'')))"
    and s: "shouldCrawl parseURL (demo_rules 2) (qi_url (demo_item ''http://a.b/d'' 1 (Some ''http://a.b/'')))
              (qi_depth (demo_item ''http://a.b/d'' 1 (Some ''http://a.b/'')))
              (pagesScraped (metrics demo_before_d))"
    using demo_shouldCrawl(2) [of 2]
    by (simp_all add: demo_before_d_def set_has_def demo_item_def)
  have t: "try_block demo_world (demo_options 2) (demo_item ''http://a.b/d'' 1 (Some ''http://a.b/''))
       (demo_before_d\<lparr>queue := [],
          visited := visited demo_before_d @ [qi_url (demo_item ''http://a.b/d'' 1 (Some ''http://a.b/''))],
          metrics := updateDepth (metrics demo_before_d)
                       (qi_depth (demo_item ''http://a.b/d'' 1 (Some ''http://a.b/'')))\<rparr>) =
     demo_final [demo_item ''http://a.b/'' 2 (Some ''http://a.b/d'')]"
    using demo_try_d [of 2] by (simp add: demo_before_d_def demo_item_def)
  have h: "hasReachedPageLimit (demo_rules 2)
     (pagesScraped (metrics (demo_final [demo_item ''http://a.b/'' 2 (Some ''http://a.b/d'')])))"
    by (simp add: hasReachedPageLimit_def demo_rules_def demo_options_def demo_final_def)
  from page_limit_bound [OF c, of 2 demo_before_d
      "demo_item ''http://a.b/d'' 1 (Some ''http://a.b/'')" "[]" "demo_rules 2"]
  have "cr_pagesScraped demo_result \<le> 2"
    and "crawl_loop demo_world (demo_options 2) (demo_rules 2) demo_before_d =
     demo_final [demo_item ''http://a.b/'' 2 (Some ''http://a.b/d'')]"
    using m q v s h by (simp_all only: t demo_constructor simp_thms)
  with c m h show ?thesis
    by (simp add: demo_final_def)
qed

section \<open>The claims\<close>

text \<open>
  C1. Visited-set invariant. A URL pulled from the queue that is already in the visited
  set is dropped and nothing else changes. A URL that is not in it is added to it, once,
  right after the dequeue: when the rules refuse the URL nothing else happens, and when
  they accept it the fetch runs on a state that already holds the URL as visited. At the
  end of every crawl the visited set has no duplicate and no URL appears twice in the
  returned pages, whatever links the world serves, cycles included.
\<close>

theorem visited_at_most_once:
  fixes st :: crawl_state and cur :: QueueItem and rules :: CrawlRules
  assumes "crawl w opts = Inr r"
  shows "distinct (map pd_url (cr_pages r)) \<and>
         (\<exists>final. crawl_run w opts = Inr final \<and> distinct (visited final) \<and>
                  set (map pd_url (cr_pages r)) \<subseteq> set (visited final)) \<and>
         (if set_has (visited st) (qi_url cur)
          then loop_body w opts rules cur st = (False, st)
          else visited (snd (loop_body w opts rules cur st)) = visited st @ [qi_url cur] \<and>
               (if shouldCrawl (new_URL w) rules (qi_url cur) (qi_depth cur) (pagesScraped (metrics st))
                then snd (loop_body w opts rules cur st) =
                       try_block w opts cur
                         (st\<lparr>visited := visited st @ [qi_url cur],
                             metrics := updateDepth (metrics st) (qi_depth cur)\<rparr>)
                else snd (loop_body w opts rules cur st) =
                       st\<lparr>visited := visited st @ [qi_url cur]\<rparr>))"
proof -
  from assms obtain final where final: "crawl_run w opts = Inr final" "cr_pages r = pages final"
    using crawl_Inr by blast
  then obtain rules' where "crawl_inv rules' final"
    using crawl_run_inv by blast
  then have "distinct (map pd_url (cr_pages r))" "distinct (visited final)"
    "set (map pd_url (cr_pages r)) \<subseteq> set (visited final)"
    using final(2) by (auto simp: crawl_inv_def)
  moreover have "if set_has (visited st) (qi_url cur)
          then loop_body w opts rules cur st = (False, st)
          else visited (snd (loop_body w opts rules cur st)) = visited st @ [qi_url cur] \<and>
               (if shouldCrawl (new_URL w) rules (qi_url cur) (qi_depth cur) (pagesScraped (metrics st))
                then snd (loop_body w opts rules cur st) =
                       try_block w opts cur
                         (st\<lparr>visited := visited st @ [qi_url cur],
                             metrics := updateDepth (metrics st) (qi_depth cur)\<rparr>)
                else snd (loop_body w opts rules cur st) =
                       st\<lparr>visited := visited st @ [qi_url cur]\<rparr>)"
    by (simp add: loop_body_visited_old loop_body_skip loop_body_crawl try_block_visited)
  ultimately show ?thesis using final(1) by blast
qed

theorem visited_at_most_once_witness:
  "crawl demo_world (demo_options 3) = Inr demo_result \<and>
   map pd_url (cr_pages demo_result) = [''http://a.b/'', ''http://a.b/d''] \<and>
   distinct (map pd_url (cr_pages demo_result)) \<and>
   set_has (visited demo_before_d) ''http://a.b/c'' \<and>
   loop_body demo_world (demo_options 3) (demo_rules 3)
     (demo_item ''http://a.b/c'' 2 (Some ''http://a.b/d'')) demo_before_d = (False, demo_before_d) \<and>
   \<not> set_has (visited demo_before_d) ''http://a.b/d'' \<and>
   visited (snd (loop_body demo_world (demo_options 3) (demo_rules 3)
                   (demo_item ''http://a.b/d'' 1 (Some ''http://a.b/'')) demo_before_d)) =
     [''http://a.b/'', ''http://a.b/c'', ''http://a.b/d'']"
proof -
  have c: "crawl demo_world (demo_options 3) = Inr demo_result"
    by (rule demo_crawl_3)
  have old: "set_has (visited demo_before_d) ''http://a.b/c''"
    and new: "\<not> set_has (visited demo_before_d) ''http://a.b/d''"
    by (simp_all add: set_has_def demo_before_d_def)
  from visited_at_most_once [OF c, of demo_before_d
      "demo_item ''http://a.b/c'' 2 (Some ''http://a.b/d'')" "demo_rules 3"] old
  have 1: "distinct (map pd_url (cr_pages demo_result))"
    and 2: "loop_body demo_world (demo_options 3) (demo_rules 3)
      (demo_item ''http://a.b/c'' 2 (Some ''http://a.b/d'')) demo_before_d = (False, demo_before_d)"
    by (simp_all add: demo_item_def)
  from visited_at_most_once [OF c, of demo_before_d
      "demo_item ''http://a.b/d'' 1 (Some ''http://a.b/'')" "demo_rules 3"] new
  have 3: "visited (snd (loop_body demo_world (demo_options 3) (demo_rules 3)
                   (demo_item ''http://a.b/d'' 1 (Some ''http://a.b/'')) demo_before_d)) =
     visited demo_before_d @ [''http://a.b/d'']"
    by (simp add: demo_item_def)
  from c 1 2 3 old new show ?thesis
    by (simp add: demo_result_def demo_final_def demo_start_page_def demo_before_d_def)
qed

text \<open>
  C2. Page-limit bound. The claim is that \<open>pagesScraped \<le> maxPages\<close> holds of every
  result. The engine compares the count with the limit before each page and stops once
  the count is at or above it, which keeps the count within a limit that is a natural
  number and lets one page too many through when it is not. The request schema,
  \<^verbatim>\<open>z.number().min(1).max(1000)\<close>, accepts 1.5, and with it the engine scrapes two pages
  of the small web, as it does with the limit 2.
\<close>

theorem page_limit_exceeded:
  "CrawlRequestSchema_numbers (demo_options (3 / 2)) \<and>
   crawl demo_world (demo_options (3 / 2)) = Inr demo_result \<and>
   cr_pagesScraped demo_result = 2 \<and>
   \<not> real (cr_pagesScraped demo_result) \<le> maxPages (demo_options (3 / 2)) \<and>
   crawl demo_world (demo_options 2) = Inr demo_result"
  using demo_crawl_frac demo_crawl_2
  by (simp add: demo_result_def demo_options_def CrawlRequestSchema_numbers_def)

text \<open>
  C3. Depth bound. Every page of a returned result has a depth below \<open>maxDepth\<close>. When a
  page is stored, its links are appended to the queue at the page's depth plus one with
  the page's URL as parent, and only when that depth is below \<open>maxDepth\<close>; otherwise the
  queue is left as it is. The rules check the depth again when an item is dequeued: they
  accept no URL whose depth is not below \<open>maxDepth\<close>, and the loop drops such an item
  after marking it visited.
\<close>

theorem depth_bound:
  fixes st :: crawl_state and cur :: QueueItem and rules :: CrawlRules
  assumes "crawl w opts = Inr r"
  shows "list_all (\<lambda>page. real (pd_depth page) < maxDepth opts) (cr_pages r) \<and>
         (thrown w opts cur (tick st) = None \<longrightarrow>
            queue (try_block w opts cur st) =
              queue st @
                (if real (qi_depth cur + 1) < maxDepth opts
                 then map (\<lambda>link. \<lparr>qi_url = link, qi_depth = qi_depth cur + 1,
                                      qi_parentUrl = Some (qi_url cur)\<rparr>)
                        (pd_links (last (pages (try_block w opts cur st))))
                 else [])) \<and>
         (shouldCrawl (new_URL w) rules url depth n \<longrightarrow> real depth < maxDepth (options rules)) \<and>
         (\<not> set_has (visited st) (qi_url cur) \<and>
          \<not> real (qi_depth cur) < maxDepth (options rules) \<longrightarrow>
            loop_body w opts rules cur st = (False, st\<lparr>visited := visited st @ [qi_url cur]\<rparr>))"
proof (intro conjI impI)
  from assms obtain final where final: "crawl_run w opts = Inr final" "cr_pages r = pages final"
    using crawl_Inr by blast
  then obtain rules' where "options rules' = opts" "crawl_inv rules' final"
    using crawl_run_inv by blast
  then show "list_all (\<lambda>page. real (pd_depth page) < maxDepth opts) (cr_pages r)"
    using final(2) by (auto simp: crawl_inv_def)
next
  assume "thrown w opts cur (tick st) = None"
  then show "queue (try_block w opts cur st) =
              queue st @
                (if real (qi_depth cur + 1) < maxDepth opts
                 then map (\<lambda>link. \<lparr>qi_url = link, qi_depth = qi_depth cur + 1,
                                      qi_parentUrl = Some (qi_url cur)\<rparr>)
                        (pd_links (last (pages (try_block w opts cur st))))
                 else [])"
    by (rule try_block_queue)
next
  assume "shouldCrawl (new_URL w) rules url depth n"
  then show "real depth < maxDepth (options rules)"
    by (auto simp: shouldCrawl_def shouldCrawlDepth_def split: if_splits)
next
  assume "\<not> set_has (visited st) (qi_url cur) \<and> \<not> real (qi_depth cur) < maxDepth (options rules)"
  then show "loop_body w opts rules cur st = (False, st\<lparr>visited := visited st @ [qi_url cur]\<rparr>)"
    by (intro loop_body_skip) (auto simp: shouldCrawl_def shouldCrawlDepth_def)
qed

theorem depth_bound_witness:
  "crawl demo_world (demo_options 3) = Inr demo_result \<and>
   list_all (\<lambda>page. real (pd_depth page) < maxDepth (demo_options 3)) (cr_pages demo_result) \<and>
   map pd_depth (cr_pages demo_result) = [0, 1] \<and>
   thrown demo_world (demo_options 3) (demo_item ''http://a.b/d'' 1 (Some ''http://a.b/''))
     (tick demo_before_d) = None \<and>
   queue (try_block demo_world (demo_options 3)
            (demo_item ''http://a.b/d'' 1 (Some ''http://a.b/'')) demo_before_d) =
     queue demo_before_d @ [demo_item ''http://a.b/'' 2 (Some ''http://a.b/d'')] \<and>
   shouldCrawl parseURL (demo_rules 3) ''http://a.b/d'' 1 1 \<and>
   \<not> set_has (visited demo_before_d) ''http://a.b/x'' \<and>
   loop_body demo_world (demo_options 3) (demo_rules 3)
     (demo_item ''http://a.b/x'' 3 None) demo_before_d =
     (False, demo_before_d\<lparr>visited := visited demo_before_d @ [''http://a.b/x'']\<rparr>)"
proof -
  have c: "crawl demo_world (demo_options 3) = Inr demo_result"
    by (rule demo_crawl_3)
  have th: "thrown demo_world (demo_options 3) (demo_item ''http://a.b/d'' 1 (Some ''http://a.b/''))
     (tick demo_before_d) = None"
    by (simp add: thrown_def demo_world_def demo_item_def)
  have s: "shouldCrawl parseURL (demo_rules 3) ''http://a.b/d'' 1 1"
    by (rule demo_shouldCrawl) simp
  have links: "pd_links (last (pages (try_block demo_world (demo_options 3)
            (demo_item ''http://a.b/d'' 1 (Some ''http://a.b/'')) demo_before_d))) = [''http://a.b/'']"
    by (simp add: engine_defs demo_defs)
  note t = depth_bound [OF c, of "demo_item ''http://a.b/d'' 1 (Some ''http://a.b/'')"
      demo_before_d "demo_rules 3" "''http://a.b/d''" 1 1]
  from t have 1: "list_all (\<lambda>page. real (pd_depth page) < maxDepth (demo_options 3))
      (cr_pages demo_result)"
    by (rule conjunct1)
  from t th links have 2: "queue (try_block demo_world (demo_options 3)
            (demo_item ''http://a.b/d'' 1 (Some ''http://a.b/'')) demo_before_d) =
     queue demo_before_d @ [demo_item ''http://a.b/'' 2 (Some ''http://a.b/d'')]"
    by (simp add: demo_item_def demo_options_def)
  have nv: "\<not> set_has (visited demo_before_d) ''http://a.b/x''"
    by (simp add: set_has_def demo_before_d_def)
  from depth_bound [OF c, of "demo_item ''http://a.b/x'' 3 None" demo_before_d "demo_rules 3"] nv
  have 3: "loop_body demo_world (demo_options 3) (demo_rules 3)
     (demo_item ''http://a.b/x'' 3 None) demo_before_d =
     (False, demo_before_d\<lparr>visited := visited demo_before_d @ [''http://a.b/x'']\<rparr>)"
    by (simp add: demo_item_def demo_rules_def demo_options_def)
  from c 1 2 3 th s nv show ?thesis
    by (simp add: demo_result_def demo_final_def demo_start_page_def)
qed






text \<open>
  C5. Error isolation. A crawl whose start URL parses returns a result in every world,
  whatever fetches fail, and no URL of its errors list is a URL of its pages list. When
  the fetch or the parse of a dequeued URL throws, the turn appends one error entry with
  the URL, the message of the error and the time, counts it, leaves the pages alone and
  goes on with the next turn of the loop; the entry is in the errors of the state the
  loop ends with, and the URL is not among its pages.
\<close>

theorem error_isolation:
  fixes st :: crawl_state and cur :: QueueItem and rules :: CrawlRules
  assumes "new_URL w (startUrl opts) \<noteq> None"
  shows "(\<exists>r. crawl w opts = Inr r \<and>
              set (map ce_url (cr_errors r)) \<inter> set (map pd_url (cr_pages r)) = {}) \<and>
         (queue st = cur # q \<and> \<not> set_has (visited st) (qi_url cur) \<and>
          shouldCrawl (new_URL w) rules (qi_url cur) (qi_depth cur) (pagesScraped (metrics st)) \<and>
          thrown w opts cur (tick st) = Some err \<longrightarrow>
            crawl_loop w opts rules st =
              crawl_loop w opts rules
                (st\<lparr>queue := q,
                    visited := visited st @ [qi_url cur],
                    metrics := incrementErrors (updateDepth (metrics st) (qi_depth cur)),
                    errs := errs st @ [\<lparr>ce_url = qi_url cur, ce_error = message err,
                                          ce_timestamp = clock w (tick st + 1)\<rparr>],
                    tick := tick st + 2\<rparr>) \<and>
            (crawl_inv rules st \<longrightarrow>
               \<lparr>ce_url = qi_url cur, ce_error = message err,
                ce_timestamp = clock w (tick st + 1)\<rparr> \<in> set (errs (crawl_loop w opts rules st)) \<and>
               qi_url cur \<notin> set (map pd_url (pages (crawl_loop w opts rules st)))))"
proof (intro conjI impI)
  from crawl_total [OF assms] obtain r where r: "crawl w opts = Inr r" by blast
  then obtain final where final: "crawl_run w opts = Inr final" "cr_pages r = pages final"
    "cr_errors r = errs final"
    using crawl_Inr by blast
  then obtain rules' where "crawl_inv rules' final"
    using crawl_run_inv by blast
  then have "set (map ce_url (cr_errors r)) \<inter> set (map pd_url (cr_pages r)) = {}"
    using final by (auto simp: crawl_inv_def)
  with r show "\<exists>r. crawl w opts = Inr r \<and>
      set (map ce_url (cr_errors r)) \<inter> set (map pd_url (cr_pages r)) = {}"
    by blast
next
  assume a: "queue st = cur # q \<and> \<not> set_has (visited st) (qi_url cur) \<and>
            shouldCrawl (new_URL w) rules (qi_url cur) (qi_depth cur) (pagesScraped (metrics st)) \<and>
            thrown w opts cur (tick st) = Some err"
  define ce where "ce = \<lparr>ce_url = qi_url cur, ce_error = message err,
                          ce_timestamp = clock w (tick st + 1)\<rparr>"
  define st' where "st' = st\<lparr>queue := q,
                    visited := visited st @ [qi_url cur],
                    metrics := incrementErrors (updateDepth (metrics st) (qi_depth cur)),
                    errs := errs st @ [ce],
                    tick := tick st + 2\<rparr>"
  from a have lim: "\<not> hasReachedPageLimit rules (pagesScraped (metrics st))"
    by (auto simp: shouldCrawl_def split: if_splits)
  have tb: "try_block w opts cur
              (st\<lparr>queue := q, visited := visited st @ [qi_url cur],
                  metrics := updateDepth (metrics st) (qi_depth cur)\<rparr>) = st'"
    using a by (subst try_block_thrown [where err = err]) (simp_all add: st'_def ce_def)
  have ps: "pagesScraped (metrics st') = pagesScraped (metrics st)"
    by (simp add: st'_def incrementErrors_def updateDepth_def)
  have lb: "loop_body w opts rules cur (st\<lparr>queue := q\<rparr>) = (False, st')"
    using a lim by (subst loop_body_crawl) (simp_all add: tb ps)
  from a lb have eq: "crawl_loop w opts rules st = crawl_loop w opts rules st'"
    by (simp add: crawl_loop_step)
  then show "crawl_loop w opts rules st =
              crawl_loop w opts rules
                (st\<lparr>queue := q,
                    visited := visited st @ [qi_url cur],
                    metrics := incrementErrors (updateDepth (metrics st) (qi_depth cur)),
                    errs := errs st @ [\<lparr>ce_url = qi_url cur, ce_error = message err,
                                          ce_timestamp = clock w (tick st + 1)\<rparr>],
                    tick := tick st + 2\<rparr>)"
    by (simp add: st'_def ce_def)
  assume inv: "crawl_inv rules st"
  have "ce \<in> set (errs st')" by (simp add: st'_def)
  then have in_errs: "ce \<in> set (errs (crawl_loop w opts rules st))"
    using crawl_loop_errs_mono [of st' w opts rules] eq by auto
  have "crawl_inv rules (crawl_loop w opts rules st)"
    using inv by (rule crawl_loop_inv)
  then have "set (map ce_url (errs (crawl_loop w opts rules st))) \<inter>
             set (map pd_url (pages (crawl_loop w opts rules st))) = {}"
    by (auto simp: crawl_inv_def)
  moreover have "qi_url cur \<in> set (map ce_url (errs (crawl_loop w opts rules st)))"
    using in_errs by (force simp: ce_def)
  ultimately have "qi_url cur \<notin> set (map pd_url (pages (crawl_loop w opts rules st)))"
    by blast
  then show "qi_url cur \<notin> set (map pd_url (pages (crawl_loop w opts rules st)))" .
  from in_errs show "\<lparr>ce_url = qi_url cur, ce_error = message err,
                ce_timestamp = clock w (tick st + 1)\<rparr> \<in> set (errs (crawl_loop w opts rules st))"
    by (simp add: ce_def)
qed

lemma demo_inv_before_c: "crawl_inv (demo_rules 3) demo_before_c"
  by (simp add: crawl_inv_def demo_before_c_def demo_start_page_def demo_rules_def
        demo_options_def)

lemma demo_thrown_c:
  "thrown demo_world opts (demo_item ''http://a.b/c'' 1 (Some ''http://a.b/'')) k =
     Some (Error ''Failed to fetch http://a.b/c: timeout'')"
  by (simp add: thrown_def demo_world_def demo_item_def)

theorem error_isolation_witness:
  "new_URL demo_world (startUrl (demo_options 3)) \<noteq> None \<and>
   crawl demo_world (demo_options 3) = Inr demo_result \<and>
   map ce_url (cr_errors demo_result) = [''http://a.b/c''] \<and>
   map pd_url (cr_pages demo_result) = [''http://a.b/'', ''http://a.b/d''] \<and>
   set (map ce_url (cr_errors demo_result)) \<inter> set (map pd_url (cr_pages demo_result)) = {} \<and>
   thrown demo_world (demo_options 3) (demo_item ''http://a.b/c'' 1 (Some ''http://a.b/''))
     (tick demo_before_c) = Some (Error ''Failed to fetch http://a.b/c: timeout'') \<and>
   crawl_loop demo_world (demo_options 3) (demo_rules 3) demo_before_c =
     crawl_loop demo_world (demo_options 3) (demo_rules 3) demo_before_d \<and>
   demo_error \<in> set (errs (crawl_loop demo_world (demo_options 3) (demo_rules 3) demo_before_c)) \<and>
   ''http://a.b/c'' \<notin>
     set (map pd_url (pages (crawl_loop demo_world (demo_options 3) (demo_rules 3) demo_before_c)))"
proof -
  have p: "new_URL demo_world (startUrl (demo_options 3)) \<noteq> None"
    using demo_start(1)
    by (auto simp: getDomain_def demo_options_def demo_constructor split: option.splits)
  have c: "crawl demo_world (demo_options 3) = Inr demo_result"
    by (rule demo_crawl_3)
  have th: "thrown demo_world (demo_options 3) (demo_item ''http://a.b/c'' 1 (Some ''http://a.b/''))
     (tick demo_before_c) = Some (Error ''Failed to fetch http://a.b/c: timeout'')"
    by (rule demo_thrown_c)
  have q: "queue demo_before_c = demo_item ''http://a.b/c'' 1 (Some ''http://a.b/'') #
             [demo_item ''http://a.b/d'' 1 (Some ''http://a.b/'')]"
    and v: "\<not> set_has (visited demo_before_c) (qi_url (demo_item ''http://a.b/c'' 1 (Some ''http://a.b/'')))"
    and s: "shouldCrawl parseURL (demo_rules 3) (qi_url (demo_item ''http://a.b/c'' 1 (Some ''http://a.b/'')))
              (qi_depth (demo_item ''http://a.b/c'' 1 (Some ''http://a.b/'')))
              (pagesScraped (metrics demo_before_c))"
    using demo_shouldCrawl(1) [of 3]
    by (simp_all add: demo_before_c_def set_has_def demo_item_def)
  have next_state: "demo_before_c
      \<lparr>queue := [demo_item ''http://a.b/d'' 1 (Some ''http://a.b/'')],
       visited := visited demo_before_c @ [qi_url (demo_item ''http://a.b/c'' 1 (Some ''http://a.b/''))],
       metrics := incrementErrors (updateDepth (metrics demo_before_c)
                    (qi_depth (demo_item ''http://a.b/c'' 1 (Some ''http://a.b/'')))),
       errs := errs demo_before_c @ [demo_error],
       tick := tick demo_before_c + 2\<rparr> = demo_before_d"
    by (simp add: demo_before_c_def demo_before_d_def demo_item_def
          incrementErrors_def updateDepth_def)
  have entry: "\<lparr>ce_url = qi_url (demo_item ''http://a.b/c'' 1 (Some ''http://a.b/'')),
                ce_error = message (Error ''Failed to fetch http://a.b/c: timeout''),
                ce_timestamp = clock demo_world (tick demo_before_c + 1)\<rparr> = demo_error"
    by (simp add: demo_before_c_def demo_item_def demo_error_def message_def demo_clock)
  note t = error_isolation [OF p, of demo_before_c
      "demo_item ''http://a.b/c'' 1 (Some ''http://a.b/'')"
      "[demo_item ''http://a.b/d'' 1 (Some ''http://a.b/'')]" "demo_rules 3"
      "Error ''Failed to fetch http://a.b/c: timeout''"]
  from t c have 1: "set (map ce_url (cr_errors demo_result)) \<inter>
      set (map pd_url (cr_pages demo_result)) = {}"
    by simp
  from t [unfolded entry next_state demo_constructor] q v s th demo_inv_before_c
  have 2: "crawl_loop demo_world (demo_options 3) (demo_rules 3) demo_before_c =
     crawl_loop demo_world (demo_options 3) (demo_rules 3) demo_before_d"
    and 3: "demo_error \<in> set (errs (crawl_loop demo_world (demo_options 3) (demo_rules 3) demo_before_c))"
    and 4: "qi_url (demo_item ''http://a.b/c'' 1 (Some ''http://a.b/'')) \<notin>
     set (map pd_url (pages (crawl_loop demo_world (demo_options 3) (demo_rules 3) demo_before_c)))"
    by blast+
  from 4 have 5: "''http://a.b/c'' \<notin>
     set (map pd_url (pages (crawl_loop demo_world (demo_options 3) (demo_rules 3) demo_before_c)))"
    by (simp add: demo_item_def)
  have lists: "map ce_url (cr_errors demo_result) = [''http://a.b/c'']"
    "map pd_url (cr_pages demo_result) = [''http://a.b/'', ''http://a.b/d'']"
    by (simp_all add: demo_result_def demo_final_def demo_start_page_def demo_error_def)
  from p c lists 1 th 2 3 5 show ?thesis
    by (intro conjI)
qed

text \<open>
  C6. Job lifecycle. \<^verbatim>\<open>createJob\<close> stores a new job with status pending under a new
  identifier, starts \<^verbatim>\<open>executeCrawl\<close>, which sets the job running and then waits for the
  crawl, and returns the identifier; no answer of the world enters it. In every step of
  a job manager that is reachable from the empty one, the status of each job object
  either stays or goes from running to completed or failed, so it never goes back and
  never leaves completed or failed; the objects the step adds are running. The end of
  the crawl sets the job completed, with the result, when the engine returned, and
  failed, with the message of the error, when it threw; the engine throws
  \<^verbatim>\<open>Invalid URL: ...\<close> for a start URL that does not parse.
\<close>

theorem job_lifecycle:
  assumes "reachable M" and "manager_step M M'"
  shows "(\<forall>job. job < length (heap M) \<longrightarrow>
            (status (heap M' ! job) = status (heap M ! job) \<or>
             (status (heap M ! job) = Running \<and>
              (status (heap M' ! job) = Completed \<or> status (heap M' ! job) = Failed))) \<and>
            rank (status (heap M ! job)) \<le> rank (status (heap M' ! job)) \<and>
            (status (heap M ! job) = Completed \<or> status (heap M ! job) = Failed \<longrightarrow>
               status (heap M' ! job) = status (heap M ! job))) \<and>
         length (heap M) \<le> length (heap M') \<and>
         (\<forall>job. length (heap M) \<le> job \<and> job < length (heap M') \<longrightarrow>
            status (heap M' ! job) = Running) \<and>
         (\<forall>jobId opts now.
            getJob (store_job M jobId opts now) jobId = Some (pending_job jobId opts now) \<and>
            status (pending_job jobId opts now) = Pending) \<and>
         (\<forall>opts timestamp random now.
            fst (createJob M opts timestamp random now) = generateJobId timestamp random \<and>
            snd (createJob M opts timestamp random now) =
              executeCrawl_start (store_job M (generateJobId timestamp random) opts now)
                (generateJobId timestamp random) \<and>
            map_option status (getJob (snd (createJob M opts timestamp random now))
                                 (generateJobId timestamp random)) = Some Running) \<and>
         (\<forall>act res now. act \<in> set (executing M) \<longrightarrow>
            status (heap (executeCrawl_finish M act (Inr res) now) ! snd act) = Completed \<and>
            result (heap (executeCrawl_finish M act (Inr res) now) ! snd act) =
              Some (res\<lparr>cr_jobId := fst act\<rparr>)) \<and>
         (\<forall>act err now. act \<in> set (executing M) \<longrightarrow>
            status (heap (executeCrawl_finish M act (Inl err) now) ! snd act) = Failed \<and>
            job_error (heap (executeCrawl_finish M act (Inl err) now) ! snd act) =
              Some (message err)) \<and>
         (\<forall>w opts. new_URL w (startUrl opts) = None \<longrightarrow>
            crawl w opts = Inl (Error (''Invalid URL: '' @ startUrl opts)))"
proof -
  have inv: "manager_inv M"
    using assms(1) by (rule reachable_inv)
  have moves: "\<forall>job. job < length (heap M) \<longrightarrow>
            (status (heap M' ! job) = status (heap M ! job) \<or>
             (status (heap M ! job) = Running \<and>
              (status (heap M' ! job) = Completed \<or> status (heap M' ! job) = Failed))) \<and>
            rank (status (heap M ! job)) \<le> rank (status (heap M' ! job)) \<and>
            (status (heap M ! job) = Completed \<or> status (heap M ! job) = Failed \<longrightarrow>
               status (heap M' ! job) = status (heap M ! job))"
  proof (intro allI impI)
    fix job
    assume "job < length (heap M)"
    from manager_step_status [OF inv assms(2) this]
    show "(status (heap M' ! job) = status (heap M ! job) \<or>
             (status (heap M ! job) = Running \<and>
              (status (heap M' ! job) = Completed \<or> status (heap M' ! job) = Failed))) \<and>
            rank (status (heap M ! job)) \<le> rank (status (heap M' ! job)) \<and>
            (status (heap M ! job) = Completed \<or> status (heap M ! job) = Failed \<longrightarrow>
               status (heap M' ! job) = status (heap M ! job))"
      by (auto simp: rank_def)
  qed
  have created: "\<forall>opts timestamp random now.
            fst (createJob M opts timestamp random now) = generateJobId timestamp random \<and>
            snd (createJob M opts timestamp random now) =
              executeCrawl_start (store_job M (generateJobId timestamp random) opts now)
                (generateJobId timestamp random) \<and>
            map_option status (getJob (snd (createJob M opts timestamp random now))
                                 (generateJobId timestamp random)) = Some Running"
    by (simp add: createJob_def Let_def executeCrawl_start_def store_job_def map_get_set
          getJob_def)
  have finished: "\<forall>act res now. act \<in> set (executing M) \<longrightarrow>
            status (heap (executeCrawl_finish M act (Inr res) now) ! snd act) = Completed \<and>
            result (heap (executeCrawl_finish M act (Inr res) now) ! snd act) =
              Some (res\<lparr>cr_jobId := fst act\<rparr>)"
    using inv by (auto simp: finish_heap manager_inv_def job_after_crawl_def)
  have failed: "\<forall>act err now. act \<in> set (executing M) \<longrightarrow>
            status (heap (executeCrawl_finish M act (Inl err) now) ! snd act) = Failed \<and>
            job_error (heap (executeCrawl_finish M act (Inl err) now) ! snd act) =
              Some (message err)"
    using inv by (auto simp: finish_heap manager_inv_def job_after_crawl_def)
  have stored: "\<forall>jobId opts now.
            getJob (store_job M jobId opts now) jobId = Some (pending_job jobId opts now) \<and>
            status (pending_job jobId opts now) = Pending"
    by (simp add: store_job_get pending_job_def)
  have seed: "\<forall>w opts. new_URL w (startUrl opts) = None \<longrightarrow>
            crawl w opts = Inl (Error (''Invalid URL: '' @ startUrl opts))"
    by (simp add: crawl_invalid_seed)
  from moves manager_step_heap [OF assms(2)] stored created finished failed seed
  show ?thesis by (intro conjI) blast+
qed

text \<open>
  One job on the small web: created at time 1000, its crawl ended at time 2000; and one
  job whose start URL does not parse.
\<close>

definition demo_activation :: "string \<times> nat" where
  "demo_activation = (generateJobId 1707 ''ab12'', 0)"

definition demo_started :: JobManager where
  "demo_started = snd (createJob new_JobManager (demo_options 3) 1707 ''ab12'' 1000)"

definition demo_finished :: JobManager where
  "demo_finished =
     executeCrawl_finish demo_started demo_activation
       (crawl demo_world (job_options (heap demo_started ! snd demo_activation))) 2000"

definition bad_started :: JobManager where
  "bad_started =
     snd (createJob new_JobManager ((demo_options 3)\<lparr>startUrl := ''not a url''\<rparr>) 1707 ''ab12'' 1000)"

definition bad_finished :: JobManager where
  "bad_finished =
     executeCrawl_finish bad_started demo_activation
       (crawl demo_world (job_options (heap bad_started ! snd demo_activation))) 2000"

lemma demo_job_id: "generateJobId 1707 ''ab12'' = ''job_1707_ab12''"
  by code_simp

lemma demo_started_eq:
  "demo_started =
     \<lparr>heap = [(pending_job (generateJobId 1707 ''ab12'') (demo_options 3) 1000)\<lparr>status := Running\<rparr>],
      jobs = [(generateJobId 1707 ''ab12'', 0)],
      executing = [demo_activation]\<rparr>"
  by (simp add: demo_started_def createJob_eq new_JobManager_def map_set_def demo_activation_def)

lemma demo_finished_heap:
  "heap demo_finished =
     [job_after_crawl ((pending_job (generateJobId 1707 ''ab12'') (demo_options 3) 1000)\<lparr>status := Running\<rparr>)
        (generateJobId 1707 ''ab12'') (Inr demo_result) 2000]"
  by (simp add: demo_finished_def finish_heap demo_started_eq demo_activation_def
        pending_job_def demo_crawl_3)

lemma demo_parse_bad: "parseURL ''not a url'' = None"
  by code_simp

theorem job_lifecycle_witness:
  "reachable demo_started \<and> manager_step demo_started demo_finished \<and>
   status (heap demo_started ! 0) = Running \<and>
   status (heap demo_finished ! 0) = Completed \<and>
   rank (status (heap demo_started ! 0)) \<le> rank (status (heap demo_finished ! 0)) \<and>
   fst (createJob new_JobManager (demo_options 3) 1707 ''ab12'' 1000) = ''job_1707_ab12'' \<and>
   reachable bad_started \<and> manager_step bad_started bad_finished \<and>
   status (heap bad_finished ! 0) = Failed \<and>
   job_error (heap bad_finished ! 0) = Some ''Invalid URL: not a url''"
proof -
  have r: "reachable demo_started"
    unfolding demo_started_def by (rule reachable.step [OF reachable.init manager_step.create])
  have a: "demo_activation \<in> set (executing demo_started)"
    by (simp add: demo_started_eq)
  have s: "manager_step demo_started demo_finished"
    unfolding demo_finished_def using a by (rule manager_step.finish)
  have l: "0 < length (heap demo_started)"
    by (simp add: demo_started_eq)
  from job_lifecycle [OF r s] l
  have mono: "rank (status (heap demo_started ! 0)) \<le> rank (status (heap demo_finished ! 0))"
    by blast
  have st: "status (heap demo_started ! 0) = Running" "status (heap demo_finished ! 0) = Completed"
    by (simp_all add: demo_started_eq demo_finished_heap job_after_crawl_def)
  from job_lifecycle [OF r s]
  have "fst (createJob demo_started (demo_options 3) 1707 ''ab12'' 1000) = generateJobId 1707 ''ab12''"
    by blast
  have id: "fst (createJob new_JobManager (demo_options 3) 1707 ''ab12'' 1000) = ''job_1707_ab12''"
    by (simp add: createJob_eq demo_job_id)
  have rb: "reachable bad_started"
    unfolding bad_started_def by (rule reachable.step [OF reachable.init manager_step.create])
  have bad_eq: "bad_started =
     \<lparr>heap = [(pending_job (generateJobId 1707 ''ab12'')
                 ((demo_options 3)\<lparr>startUrl := ''not a url''\<rparr>) 1000)\<lparr>status := Running\<rparr>],
      jobs = [(generateJobId 1707 ''ab12'', 0)],
      executing = [demo_activation]\<rparr>"
    by (simp add: bad_started_def createJob_eq new_JobManager_def map_set_def demo_activation_def)
  have ab: "demo_activation \<in> set (executing bad_started)"
    by (simp add: bad_eq)
  have sb: "manager_step bad_started bad_finished"
    unfolding bad_finished_def using ab by (rule manager_step.finish)
  have opts: "job_options (heap bad_started ! snd demo_activation) =
      (demo_options 3)\<lparr>startUrl := ''not a url''\<rparr>"
    by (simp add: bad_eq demo_activation_def pending_job_def)
  have p: "new_URL demo_world (startUrl ((demo_options 3)\<lparr>startUrl := ''not a url''\<rparr>)) = None"
    by (simp add: demo_parse_bad demo_constructor)
  from job_lifecycle [OF rb sb] p
  have thrown: "crawl demo_world ((demo_options 3)\<lparr>startUrl := ''not a url''\<rparr>) =
      Inl (Error (''Invalid URL: '' @ startUrl ((demo_options 3)\<lparr>startUrl := ''not a url''\<rparr>)))"
    by blast
  from job_lifecycle [OF rb sb] ab
  have "status (heap (executeCrawl_finish bad_started demo_activation
          (Inl (Error (''Invalid URL: '' @ startUrl ((demo_options 3)\<lparr>startUrl := ''not a url''\<rparr>)))) 2000) !
            snd demo_activation) = Failed"
    and "job_error (heap (executeCrawl_finish bad_started demo_activation
          (Inl (Error (''Invalid URL: '' @ startUrl ((demo_options 3)\<lparr>startUrl := ''not a url''\<rparr>)))) 2000) !
            snd demo_activation) =
         Some (message (Error (''Invalid URL: '' @ startUrl ((demo_options 3)\<lparr>startUrl := ''not a url''\<rparr>))))"
    by blast+
  then have fb: "status (heap bad_finished ! 0) = Failed"
    "job_error (heap bad_finished ! 0) = Some ''Invalid URL: not a url''"
    unfolding bad_finished_def opts thrown
    by (simp_all add: demo_activation_def message_def)
  from r s st mono id rb sb fb show ?thesis
    by (intro conjI)
qed

text \<open>\<^verbatim>\<open>normalizeUrl(normalizeUrl(u))\<close>.\<close>

definition normalize_twice :: "url_constructor \<Rightarrow> string \<Rightarrow> error + string" where
  "normalize_twice new_url u =
     (case normalizeUrl new_url u of Inl e \<Rightarrow> Inl e | Inr n \<Rightarrow> normalizeUrl new_url n)"

text \<open>
  C7. Normalization idempotence. The claim is that \<^verbatim>\<open>normalizeUrl\<close> applied to its own
  result changes nothing. The code removes one trailing slash from the path, so a path
  that ends in two slashes keeps one, and the second application removes it.
\<close>

theorem normalizeUrl_twice_differs:
  "normalizeUrl parseURL ''http://x.com/a//'' = Inr ''http://x.com/a/'' \<and>
   normalize_twice parseURL ''http://x.com/a//'' = Inr ''http://x.com/a''"
  by code_simp

text \<open>
  C8. Normalization example. The claim gives
  \<^verbatim>\<open>https://example.com/page?a=1&b=2\<close> as the normal form of
  \<^verbatim>\<open>https://Example.COM/Page?b=2&a=1#x\<close>, as the repository's architecture notes and its
  documented unit test do. The code lowers the case of the scheme and of the host only:
  the path keeps its capital letter.
\<close>

theorem normalizeUrl_keeps_path_case:
  "normalizeUrl parseURL ''https://Example.COM/Page?b=2&a=1#x'' = Inr ''https://example.com/Page?a=1&b=2'' \<and>
   normalizeUrl parseURL ''https://Example.COM/Page'' = Inr ''https://example.com/Page''"
  by code_simp

text \<open>
  C9. The exposed \<open>currentDepth\<close>. The claim is that the metrics a job shows hold the
  greatest depth its traversal reached. \<^verbatim>\<open>executeCrawl\<close> writes the constant 0 into the
  field when the crawl ends, under the comment "Will be updated by crawler", and nothing
  updates it. On the small web the engine's own tracker ends at depth 1 and the result
  has a page at depth 1, yet the finished job shows \<open>currentDepth = 0\<close>, through
  \<^verbatim>\<open>getJobStatus\<close> and through \<^verbatim>\<open>getJobResult\<close> alike.
\<close>

theorem exposed_currentDepth_stays_zero:
  "map_sum id (\<lambda>st. currentDepth (metrics st)) (crawl_run demo_world (demo_options 3)) = Inr 1 \<and>
   map_option (\<lambda>job. (status job, currentDepth (job_metrics job)))
     (getJobStatus demo_finished ''job_1707_ab12'') = Some (Completed, 0) \<and>
   map_option (\<lambda>job. (status job, currentDepth (job_metrics job),
                       map_option (\<lambda>r. map pd_depth (cr_pages r)) (result job)))
     (getJobResult demo_finished ''job_1707_ab12'') = Some (Completed, 0, Some [0, 1])"
proof -
  have jobs: "jobs demo_finished = [(''job_1707_ab12'', 0)]"
    by (simp add: demo_finished_def executeCrawl_finish_def demo_started_eq demo_activation_def
          map_set_def demo_job_id)
  have heap: "heap demo_finished ! 0 =
     job_after_crawl ((pending_job ''job_1707_ab12'' (demo_options 3) 1000)\<lparr>status := Running\<rparr>)
        ''job_1707_ab12'' (Inr demo_result) 2000"
    by (simp add: demo_finished_heap demo_job_id)
  show ?thesis
    by (simp add: demo_run_3 getJobStatus_def getJobResult_def map_get_def jobs heap
          job_after_crawl_def pending_job_def demo_result_def demo_final_def demo_start_page_def)
qed

text \<open>
  C10. Result counters. At the end of every crawl the pages counter is the length of the
  pages list and the errors counter is the length of the errors list, so the returned
  \<open>pagesScraped\<close> is the number of returned pages and the engine's errors metric is the
  number of returned errors. One pass through the \<^verbatim>\<open>try\<close> block either appends one page
  and adds one to the pages counter, or appends one error and adds one to the errors
  counter, and in each case leaves the other list and counter alone.
\<close>

theorem counters_count_lists:
  fixes st :: crawl_state and cur :: QueueItem
  assumes "crawl_run w opts = Inr final"
  shows "pagesScraped (metrics final) = length (pages final) \<and>
         errors (metrics final) = length (errs final) \<and>
         (\<exists>r. crawl w opts = Inr r \<and> cr_pagesScraped r = length (cr_pages r) \<and>
              cr_errors r = errs final \<and> errors (metrics final) = length (cr_errors r)) \<and>
         (if thrown w opts cur (tick st) = None
          then length (pages (try_block w opts cur st)) = length (pages st) + 1 \<and>
               pagesScraped (metrics (try_block w opts cur st)) = pagesScraped (metrics st) + 1 \<and>
               errs (try_block w opts cur st) = errs st \<and>
               errors (metrics (try_block w opts cur st)) = errors (metrics st)
          else length (errs (try_block w opts cur st)) = length (errs st) + 1 \<and>
               errors (metrics (try_block w opts cur st)) = errors (metrics st) + 1 \<and>
               pages (try_block w opts cur st) = pages st \<and>
               pagesScraped (metrics (try_block w opts cur st)) = pagesScraped (metrics st))"
proof -
  from assms obtain rules where "crawl_inv rules final"
    using crawl_run_inv by blast
  then have "pagesScraped (metrics final) = length (pages final)"
    "errors (metrics final) = length (errs final)"
    by (auto simp: crawl_inv_def)
  moreover have "if thrown w opts cur (tick st) = None
          then length (pages (try_block w opts cur st)) = length (pages st) + 1 \<and>
               pagesScraped (metrics (try_block w opts cur st)) = pagesScraped (metrics st) + 1 \<and>
               errs (try_block w opts cur st) = errs st \<and>
               errors (metrics (try_block w opts cur st)) = errors (metrics st)
          else length (errs (try_block w opts cur st)) = length (errs st) + 1 \<and>
               errors (metrics (try_block w opts cur st)) = errors (metrics st) + 1 \<and>
               pages (try_block w opts cur st) = pages st \<and>
               pagesScraped (metrics (try_block w opts cur st)) = pagesScraped (metrics st)"
    by (auto simp: thrown_def try_block_def catch_block_def incrementErrors_def
          incrementPagesScrapped_def addLinksDiscovered_def Let_def split: sum.splits)
  ultimately show ?thesis
    using assms by (simp add: crawl_def getMetrics_def Let_def)
qed

theorem counters_count_lists_witness:
  "crawl_run demo_world (demo_options 3) = Inr (demo_final []) \<and>
   pagesScraped (metrics (demo_final [])) = length (pages (demo_final [])) \<and>
   errors (metrics (demo_final [])) = length (errs (demo_final [])) \<and>
   length (pages (demo_final [])) = 2 \<and> length (errs (demo_final [])) = 1 \<and>
   thrown demo_world (demo_options 3) (demo_item ''http://a.b/c'' 1 (Some ''http://a.b/''))
     (tick demo_before_c) \<noteq> None \<and>
   errors (metrics (try_block demo_world (demo_options 3)
                      (demo_item ''http://a.b/c'' 1 (Some ''http://a.b/'')) demo_before_c)) =
     errors (metrics demo_before_c) + 1 \<and>
   pages (try_block demo_world (demo_options 3)
            (demo_item ''http://a.b/c'' 1 (Some ''http://a.b/'')) demo_before_c) =
     pages demo_before_c"
proof -
  have th: "thrown demo_world (demo_options 3) (demo_item ''http://a.b/c'' 1 (Some ''http://a.b/''))
     (tick demo_before_c) = Some (Error ''Failed to fetch http://a.b/c: timeout'')"
    by (rule demo_thrown_c)
  note t = counters_count_lists [OF demo_run_3, of
      "demo_item ''http://a.b/c'' 1 (Some ''http://a.b/'')" demo_before_c]
  from t have "pagesScraped (metrics (demo_final [])) = length (pages (demo_final []))"
    "errors (metrics (demo_final [])) = length (errs (demo_final []))"
    "errors (metrics (try_block demo_world (demo_options 3)
                      (demo_item ''http://a.b/c'' 1 (Some ''http://a.b/'')) demo_before_c)) =
     errors (metrics demo_before_c) + 1"
    "pages (try_block demo_world (demo_options 3)
            (demo_item ''http://a.b/c'' 1 (Some ''http://a.b/'')) demo_before_c) =
     pages demo_before_c"
    by (simp_all only: th option.distinct if_False simp_thms)
  with th demo_run_3 show ?thesis
    by (simp add: demo_final_def)
qed

end
